theory Spec2Isabelle
  imports Complex_Main "HOL-Library.Word" "HOL-Library.Char_ord" "HOL-Library.List_Lexorder"
begin

section \<open>Reflected values\<close>

text \<open>
  The comparator and the operators work on \<open>reflect.Value\<close>. A value is modelled by its
  kind (the constructor), its type descriptor and what the accessors of the kind read.
  The kinds of one family (\<open>Int\<close>, \<open>Int8\<close>, ..., \<open>Int64\<close>), which have one accessor, share a
  constructor. Pointers, slices and maps hold an address; what is stored behind an
  address is in the heap, so that cyclic values can be written down.
\<close>

type_synonym uintptr = "64 word"

text \<open>A \<open>float64\<close> as far as the comparisons of Go and \<open>math.IsNaN\<close> can observe it: NaN,
  the two infinities, or a number (the two zeros are one).\<close>

datatype float64 = NaN | NegInf | Finite real | PosInf

fun IsNaN :: "float64 \<Rightarrow> bool" where
  "IsNaN NaN = True"
| "IsNaN _ = False"

text \<open>Go's comparison \<open>a < b\<close> on floats: false as soon as one side is NaN.\<close>

fun float_less :: "float64 \<Rightarrow> float64 \<Rightarrow> bool" where
  "float_less NaN _ = False"
| "float_less _ NaN = False"
| "float_less NegInf b = (b \<noteq> NegInf)"
| "float_less (Finite x) NegInf = False"
| "float_less (Finite x) (Finite y) = (x < y)"
| "float_less (Finite x) PosInf = True"
| "float_less PosInf _ = False"

datatype kind =
    KInvalid | KBool | KInt | KInt8 | KInt16 | KInt32 | KInt64
  | KUint | KUint8 | KUint16 | KUint32 | KUint64 | KUintptr
  | KFloat32 | KFloat64 | KComplex64 | KComplex128
  | KArray | KChan | KFunc | KInterface | KMap | KPtr | KSlice | KString | KStruct
  | KUnsafePointer

text \<open>The kinds of one family, which share their accessor.\<close>

datatype int_kind = Int0 | Int8 | Int16 | Int32 | Int64
datatype uint_kind = Uint0 | Uint8 | Uint16 | Uint32 | Uint64 | Uintptr
datatype float_kind = Float32 | Float64
datatype complex_kind = Complex64 | Complex128

text \<open>A Go string: the data pointer of its header and the bytes it reads there.\<close>

datatype gostring = GoString (Data: uintptr) (bytes: string)

text \<open>
  A \<open>reflect.Type\<close>: its kind, its name as \<open>String()\<close> gives it, and its identity among the
  types of that kind and name (two different types may have the same name). Descriptors
  are compared by identity, so two types are equal when all three agree. A value carries
  the name and the identity of its type; the kind is the one of the value.
\<close>

datatype rtype = RType (type_kind: kind) (type_string: string) (type_id: nat)

type_synonym tag = "string \<times> nat"

datatype val =
    Invalid
  | VBool tag bool
  | VInt tag int_kind int
  | VUint tag uint_kind nat
  | VFloat tag float_kind float64
  | VComplex tag complex_kind float64 float64
  | VString tag gostring
  | VArray tag "val list"
  | VSlice tag uintptr nat
  | VInterface tag "val option"
  | VStruct tag "val list"
  | VPtr tag uintptr
  | VMap tag uintptr
  | VFunc tag uintptr
  | VChan tag uintptr
  | VUnsafePointer tag uintptr

text \<open>
  \<open>VInt t k x\<close>: the integer \<open>x\<close> of a type of kind \<open>k\<close>; likewise for the other numbers.
  \<open>VSlice t d n\<close>: a slice header with data pointer \<open>d\<close> and length \<open>n\<close>.
  \<open>VMap t p\<close>: the map at address \<open>p\<close>; its entries are in the heap.
  \<open>VInterface t x\<close>: an interface value, \<open>None\<close> when nil.
  Address 0 is nil.
\<close>

text \<open>The heap: what a pointer points to, the items behind the data pointer of a slice,
  the entries of a map.\<close>

record heap =
  pointee :: "uintptr \<Rightarrow> val option"
  backing :: "uintptr \<Rightarrow> val list"
  entries :: "uintptr \<Rightarrow> (val \<times> val) list"

fun Kind :: "val \<Rightarrow> kind" where
  "Kind Invalid = KInvalid"
| "Kind (VBool _ _) = KBool"
| "Kind (VInt _ k _) =
     (case k of Int0 \<Rightarrow> KInt | Int8 \<Rightarrow> KInt8 | Int16 \<Rightarrow> KInt16 | Int32 \<Rightarrow> KInt32 | Int64 \<Rightarrow> KInt64)"
| "Kind (VUint _ k _) =
     (case k of Uint0 \<Rightarrow> KUint | Uint8 \<Rightarrow> KUint8 | Uint16 \<Rightarrow> KUint16 | Uint32 \<Rightarrow> KUint32
      | Uint64 \<Rightarrow> KUint64 | Uintptr \<Rightarrow> KUintptr)"
| "Kind (VFloat _ k _) = (case k of Float32 \<Rightarrow> KFloat32 | Float64 \<Rightarrow> KFloat64)"
| "Kind (VComplex _ k _ _) = (case k of Complex64 \<Rightarrow> KComplex64 | Complex128 \<Rightarrow> KComplex128)"
| "Kind (VString _ _) = KString"
| "Kind (VArray _ _) = KArray"
| "Kind (VSlice _ _ _) = KSlice"
| "Kind (VInterface _ _) = KInterface"
| "Kind (VStruct _ _) = KStruct"
| "Kind (VPtr _ _) = KPtr"
| "Kind (VMap _ _) = KMap"
| "Kind (VFunc _ _) = KFunc"
| "Kind (VChan _ _) = KChan"
| "Kind (VUnsafePointer _ _) = KUnsafePointer"

fun IsValid :: "val \<Rightarrow> bool" where
  "IsValid Invalid = False"
| "IsValid _ = True"

text \<open>\<open>Type()\<close> panics on the invalid value; the comparator asks only after \<open>IsValid\<close>.\<close>

fun type_tag :: "val \<Rightarrow> tag option" where
  "type_tag Invalid = None"
| "type_tag (VBool t _) = Some t"
| "type_tag (VInt t _ _) = Some t"
| "type_tag (VUint t _ _) = Some t"
| "type_tag (VFloat t _ _) = Some t"
| "type_tag (VComplex t _ _ _) = Some t"
| "type_tag (VString t _) = Some t"
| "type_tag (VArray t _) = Some t"
| "type_tag (VSlice t _ _) = Some t"
| "type_tag (VInterface t _) = Some t"
| "type_tag (VStruct t _) = Some t"
| "type_tag (VPtr t _) = Some t"
| "type_tag (VMap t _) = Some t"
| "type_tag (VFunc t _) = Some t"
| "type_tag (VChan t _) = Some t"
| "type_tag (VUnsafePointer t _) = Some t"

definition Type :: "val \<Rightarrow> rtype option" where
  "Type a = (case type_tag a of None \<Rightarrow> None | Some (s, i) \<Rightarrow> Some (RType (Kind a) s i))"

text \<open>The accessors of \<open>reflect.Value\<close> panic when called on another kind.\<close>

definition wrong_kind :: "string + 'a" where
  "wrong_kind = Inl ''reflect: call of Value method on wrong Kind''"

fun Bool :: "val \<Rightarrow> string + bool" where
  "Bool (VBool _ x) = Inr x"
| "Bool _ = wrong_kind"

fun IntVal :: "val \<Rightarrow> string + int" where
  "IntVal (VInt _ _ x) = Inr x"
| "IntVal _ = wrong_kind"

fun Uint :: "val \<Rightarrow> string + nat" where
  "Uint (VUint _ _ x) = Inr x"
| "Uint _ = wrong_kind"

fun Float :: "val \<Rightarrow> string + float64" where
  "Float (VFloat _ _ x) = Inr x"
| "Float _ = wrong_kind"

fun ComplexVal :: "val \<Rightarrow> string + float64 \<times> float64" where
  "ComplexVal (VComplex _ _ re im) = Inr (re, im)"
| "ComplexVal _ = wrong_kind"

text \<open>\<open>String()\<close> does not panic on the other kinds: it returns a new string that names
  the type. It is read on strings only; the data pointer of the new string is not
  known and written 0.\<close>

fun String :: "val \<Rightarrow> gostring" where
  "String (VString _ s) = s"
| "String Invalid = GoString 0 ''<invalid Value>''"
| "String a = GoString 0 (''<'' @ fst (the (type_tag a)) @ '' Value>'')"

fun Len :: "heap \<Rightarrow> val \<Rightarrow> string + nat" where
  "Len h (VArray _ xs) = Inr (length xs)"
| "Len h (VSlice _ _ n) = Inr n"
| "Len h (VMap _ p) = Inr (if p = 0 then 0 else length (entries h p))"
| "Len h (VString _ s) = Inr (length (bytes s))"
| "Len h _ = wrong_kind"

fun NumField :: "val \<Rightarrow> string + nat" where
  "NumField (VStruct _ fs) = Inr (length fs)"
| "NumField _ = wrong_kind"

definition out_of_range :: "string + 'a" where
  "out_of_range = Inl ''reflect: index out of range''"

fun Index :: "heap \<Rightarrow> val \<Rightarrow> nat \<Rightarrow> string + val" where
  "Index h (VArray _ xs) i = (if i < length xs then Inr (xs ! i) else out_of_range)"
| "Index h (VSlice _ d n) i =
     (if i < n \<and> i < length (backing h d) then Inr (backing h d ! i) else out_of_range)"
| "Index h _ i = wrong_kind"

fun Field :: "val \<Rightarrow> nat \<Rightarrow> string + val" where
  "Field (VStruct _ fs) i = (if i < length fs then Inr (fs ! i) else out_of_range)"
| "Field _ i = wrong_kind"

fun Pointer :: "val \<Rightarrow> string + uintptr" where
  "Pointer (VChan _ p) = Inr p"
| "Pointer (VFunc _ p) = Inr p"
| "Pointer (VMap _ p) = Inr p"
| "Pointer (VPtr _ p) = Inr p"
| "Pointer (VSlice _ d _) = Inr d"
| "Pointer (VUnsafePointer _ p) = Inr p"
| "Pointer _ = wrong_kind"

fun IsNil :: "val \<Rightarrow> string + bool" where
  "IsNil (VChan _ p) = Inr (p = 0)"
| "IsNil (VFunc _ p) = Inr (p = 0)"
| "IsNil (VMap _ p) = Inr (p = 0)"
| "IsNil (VPtr _ p) = Inr (p = 0)"
| "IsNil (VSlice _ d _) = Inr (d = 0)"
| "IsNil (VUnsafePointer _ p) = Inr (p = 0)"
| "IsNil (VInterface _ x) = Inr (x = None)"
| "IsNil _ = wrong_kind"

text \<open>\<open>Elem()\<close> of a nil interface or a nil pointer is the invalid value.\<close>

fun Elem :: "heap \<Rightarrow> val \<Rightarrow> string + val" where
  "Elem h (VInterface _ x) = Inr (case x of None \<Rightarrow> Invalid | Some y \<Rightarrow> y)"
| "Elem h (VPtr _ p) =
     (if p = 0 then Inr Invalid
      else case pointee h p of None \<Rightarrow> Inl ''invalid memory address'' | Some y \<Rightarrow> Inr y)"
| "Elem h _ = wrong_kind"

section \<open>helpers/tdutil/sort.go: the comparator\<close>

definition cmpRet :: "bool \<Rightarrow> bool \<Rightarrow> int" where
  "cmpRet lt gt = (if lt then -1 else if gt then 1 else 0)"

definition cmpFloat :: "float64 \<Rightarrow> float64 \<Rightarrow> int" where
  "cmpFloat a b =
     (if IsNaN a then -1
      else if IsNaN b then 1
      else cmpRet (float_less a b) (float_less b a))"

text \<open>
  The outcome of a call of \<open>cmp\<close>: \<open>None\<close> when the recursion is deeper than the fuel,
  \<open>Some (Inl msg)\<close> for a panic, \<open>Some (Inr (r, v))\<close> when \<open>r\<close> is returned and the visited
  set, which \<open>Record\<close> updates in place, is left as \<open>v\<close>.
\<close>

type_synonym 'v outcome = "(string + int \<times> 'v) option"

definition ret :: "int \<Rightarrow> 'v \<Rightarrow> 'v outcome" where
  "ret r v = Some (Inr (r, v))"

definition panic :: "string \<Rightarrow> 'v outcome" where
  "panic msg = Some (Inl msg)"

text \<open>The loops of the array, slice and struct cases: compare the items at the indices
  in turn and return the first result that is not 0.\<close>

fun cmp_items ::
  "('v \<Rightarrow> val \<Rightarrow> val \<Rightarrow> 'v outcome) \<Rightarrow> (nat \<Rightarrow> string + val) \<Rightarrow> (nat \<Rightarrow> string + val) \<Rightarrow>
     'v \<Rightarrow> nat list \<Rightarrow> 'v outcome" where
  "cmp_items f ia ib v [] = ret 0 v"
| "cmp_items f ia ib v (i # is) =
     (case ia i of Inl e \<Rightarrow> panic e | Inr x \<Rightarrow>
     (case ib i of Inl e \<Rightarrow> panic e | Inr y \<Rightarrow>
     (case f v x y of
        None \<Rightarrow> None
      | Some (Inl e) \<Rightarrow> panic e
      | Some (Inr (r, v')) \<Rightarrow> if r \<noteq> 0 then ret r v' else cmp_items f ia ib v' is)))"

text \<open>
  The body of \<open>cmp\<close>; its first argument stands for \<open>cmp\<close> itself in the recursive calls.
  The visited set belongs to the package \<open>internal/visited\<close>: its type \<open>'v\<close> and its method
  \<open>Record\<close> are parameters here, and modelled below. The accessors called on \<open>b\<close> under
  the kind of \<open>a\<close> cannot panic, as both have one type; the model keeps the panic of
  \<open>reflect\<close> all the same. Every kind of a valid value has its case, so the \<open>default\<close>
  case of the switch is left to the invalid value, which never reaches it.
\<close>

definition cmp_body ::
  "('v \<Rightarrow> val \<Rightarrow> val \<Rightarrow> 'v outcome) \<Rightarrow> ('v \<Rightarrow> val \<Rightarrow> val \<Rightarrow> bool \<times> 'v) \<Rightarrow> heap \<Rightarrow>
     'v \<Rightarrow> val \<Rightarrow> val \<Rightarrow> 'v outcome" where
  "cmp_body cmp Record h v a b =
     (if \<not> IsValid a then (if \<not> IsValid b then ret 0 v else ret (-1) v)
      else if \<not> IsValid b then ret 1 v
      else if Type a \<noteq> Type b then
        (let sat = type_string (the (Type a)); sbt = type_string (the (Type b))
         in ret (cmpRet (sat < sbt) (sat > sbt)) v)
      else (case Record v a b of
        (True, v') \<Rightarrow> ret 0 v'
      | (False, v') \<Rightarrow>
        (case a of
          VBool _ x \<Rightarrow>
            (case Bool b of Inl e \<Rightarrow> panic e | Inr y \<Rightarrow>
               if x then (if y then ret 0 v' else ret 1 v')
               else if y then ret (-1) v' else ret 0 v')
        | VInt _ _ na \<Rightarrow>
            (case IntVal b of Inl e \<Rightarrow> panic e | Inr nb \<Rightarrow> ret (cmpRet (na < nb) (na > nb)) v')
        | VUint _ _ na \<Rightarrow>
            (case Uint b of Inl e \<Rightarrow> panic e | Inr nb \<Rightarrow> ret (cmpRet (na < nb) (na > nb)) v')
        | VFloat _ _ fa \<Rightarrow>
            (case Float b of Inl e \<Rightarrow> panic e | Inr fb \<Rightarrow> ret (cmpFloat fa fb) v')
        | VComplex _ _ fa ia \<Rightarrow>
            (case ComplexVal b of Inl e \<Rightarrow> panic e | Inr (fb, ib) \<Rightarrow>
               if cmpFloat fa fb \<noteq> 0 then ret (cmpFloat fa fb) v' else ret (cmpFloat ia ib) v')
        | VString _ s \<Rightarrow>
            (let sa = bytes s; sb = bytes (String b) in ret (cmpRet (sa < sb) (sa > sb)) v')
        | VArray _ xs \<Rightarrow>
            cmp_items cmp (Index h a) (Index h b) v' [0..<length xs]
        | VSlice _ _ al \<Rightarrow>
            (case Len h b of Inl e \<Rightarrow> panic e | Inr bl \<Rightarrow>
              (let maxl = (if al > bl then bl else al) in
              (case cmp_items cmp (Index h a) (Index h b) v' [0..<maxl] of
                 None \<Rightarrow> None
               | Some (Inl e) \<Rightarrow> panic e
               | Some (Inr (r, v'')) \<Rightarrow>
                   if r \<noteq> 0 then ret r v'' else ret (cmpRet (al < bl) (al > bl)) v'')))
        | VInterface _ x \<Rightarrow>
            (if x = None then
               (case IsNil b of Inl e \<Rightarrow> panic e | Inr bn \<Rightarrow>
                  if bn then ret 0 v' else ret (-1) v')
             else
               (case IsNil b of Inl e \<Rightarrow> panic e | Inr bn \<Rightarrow>
                  if bn then ret 1 v'
                  else (case Elem h a of Inl e \<Rightarrow> panic e | Inr ea \<Rightarrow>
                       (case Elem h b of Inl e \<Rightarrow> panic e | Inr eb \<Rightarrow> cmp v' ea eb))))
        | VStruct _ fs \<Rightarrow>
            cmp_items cmp (Field a) (Field b) v' [0..<length fs]
        | VPtr _ pa \<Rightarrow>
            (case Pointer b of Inl e \<Rightarrow> panic e | Inr pb \<Rightarrow>
               if pa = pb then ret 0 v'
               else if pa = 0 then ret (-1) v'
               else (case IsNil b of Inl e \<Rightarrow> panic e | Inr bn \<Rightarrow>
                 if bn then ret 1 v'
                 else (case Elem h a of Inl e \<Rightarrow> panic e | Inr ea \<Rightarrow>
                      (case Elem h b of Inl e \<Rightarrow> panic e | Inr eb \<Rightarrow> cmp v' ea eb))))
        | VMap _ pa \<Rightarrow>
            (case Len h a of Inl e \<Rightarrow> panic e | Inr al \<Rightarrow>
            (case Len h b of Inl e \<Rightarrow> panic e | Inr bl \<Rightarrow>
               if cmpRet (al < bl) (al > bl) \<noteq> 0 then ret (cmpRet (al < bl) (al > bl)) v'
               else (case Pointer b of Inl e \<Rightarrow> panic e | Inr pb \<Rightarrow>
                 ret (cmpRet (pa < pb) (pa > pb)) v')))
        | VFunc _ pa \<Rightarrow>
            (case Pointer b of Inl e \<Rightarrow> panic e | Inr pb \<Rightarrow> ret (cmpRet (pa < pb) (pa > pb)) v')
        | VChan _ pa \<Rightarrow>
            (case Pointer b of Inl e \<Rightarrow> panic e | Inr pb \<Rightarrow> ret (cmpRet (pa < pb) (pa > pb)) v')
        | VUnsafePointer _ pa \<Rightarrow>
            (case Pointer b of Inl e \<Rightarrow> panic e | Inr pb \<Rightarrow> ret (cmpRet (pa < pb) (pa > pb)) v')
        | Invalid \<Rightarrow> panic ''don't know how to compare invalid'')))"

text \<open>\<open>cmp\<close>, with a bound on the depth of the recursion as first argument.\<close>

fun cmp ::
  "nat \<Rightarrow> ('v \<Rightarrow> val \<Rightarrow> val \<Rightarrow> bool \<times> 'v) \<Rightarrow> heap \<Rightarrow> 'v \<Rightarrow> val \<Rightarrow> val \<Rightarrow> 'v outcome" where
  "cmp 0 Record h v a b = None"
| "cmp (Suc n) Record h v a b = cmp_body (cmp n Record h) Record h v a b"

subsection \<open>The visited set\<close>

text \<open>
  Modelled from the spec: the type \<open>visited.Visited\<close>, \<open>visited.NewVisited\<close> and the method
  \<open>Record\<close> of the package \<open>internal/visited\<close> are missing from the sources. The spec
  describes a set of (identity of left, identity of right) pairs, created empty, with a
  membership check plus insert, recorded before descending into a pointer, map, slice or
  interface pair. The identity of a pointer, a map and a slice is its address; the
  storage address of an interface value is not part of \<open>val\<close>, so interface pairs are
  not recorded here.
\<close>

type_synonym visited = "(uintptr \<times> uintptr) set"

definition NewVisited :: visited where
  "NewVisited = {}"

fun identity :: "val \<Rightarrow> uintptr option" where
  "identity (VPtr _ p) = Some p"
| "identity (VMap _ p) = Some p"
| "identity (VSlice _ d _) = Some d"
| "identity _ = None"

definition Record :: "visited \<Rightarrow> val \<Rightarrow> val \<Rightarrow> bool \<times> visited" where
  "Record v got expected =
     (case (identity got, identity expected) of
        (Some p, Some q) \<Rightarrow> if (p, q) \<in> v then (True, v) else (False, insert (p, q) v)
      | _ \<Rightarrow> (False, v))"

section \<open>internal/ctxerr: errors\<close>

text \<open>
  \<open>ctxerr.Context\<close>, by the fields that the operators and \<open>Append\<close> read or write. The
  type of a path is left open.
\<close>

record ('op, 'p) ctxerr_Context =
  Path :: 'p
  BooleanError :: bool
  CurOperator :: "'op option"

text \<open>
  \<open>location.Location\<close>: a struct with a field \<open>BehindCmp\<close>; its other fields are the
  extension of the record, so that comparing two locations compares all of them.
\<close>

record location =
  BehindCmp :: bool

text \<open>The values stored in \<open>Got\<close> and \<open>Expected\<close>: nil, a \<open>types.RawString\<close>, or anything else.\<close>

datatype 'x any = Nil | RawString string | Any 'x

text \<open>
  \<open>ctxerr.Error\<close>. \<open>BooleanError\<close> and \<open>ErrTooManyErrors\<close> are two allocated errors that the
  code recognises by their address: \<open>ident\<close> tells which allocation a node is. A summary
  is given by what its \<open>AppendSummary\<close> writes for a prefix. The zero value of a type is
  written 0.
\<close>

datatype error_ident = IsBooleanError | IsErrTooManyErrors | Allocated

datatype ('op, 'p, 'm, 'x) error =
  Error (ident: error_ident)
        (Context: "('op, 'p) ctxerr_Context")
        (Message: string)
        (Got: "'x any")
        (Expected: "'x any")
        (Summary: "(string \<Rightarrow> string) option")
        (Location: "'m location_scheme")
        (Origin: "('op, 'p, 'm, 'x) error option")
        (Next: "('op, 'p, 'm, 'x) error option")

definition zero_context :: "('op, 'p::zero) ctxerr_Context" where
  "zero_context = \<lparr>Path = 0, BooleanError = False, CurOperator = None\<rparr>"

definition zero_location :: "('m::zero) location_scheme" where
  "zero_location = \<lparr>BehindCmp = False, \<dots> = 0\<rparr>"

definition ctxerr_BooleanError :: "('op, 'p::zero, 'm::zero, 'x) error" where
  "ctxerr_BooleanError =
     Error IsBooleanError zero_context [] Nil Nil None zero_location None None"

definition ErrTooManyErrors :: "('op, 'p::zero, 'm::zero, 'x) error" where
  "ErrTooManyErrors =
     Error IsErrTooManyErrors zero_context
       ''Too many errors (use TESTDEEP_MAX_ERRORS=-1 to see all)''
       Nil Nil None zero_location None None"

text \<open>What \<open>Append\<close> takes from other packages: the variables of \<open>color\<close> as \<open>color.Init\<close>
  has set them, the methods of paths and locations, \<open>util.ToString\<close> and
  \<open>util.IndentStringIn\<close> (given by the text it writes).\<close>

record ('p, 'm, 'x) rendering =
  TitleOn :: string
  TitleOff :: string
  BadOnBold :: string
  BadOn :: string
  BadOff :: string
  OKOnBold :: string
  OKOn :: string
  OKOff :: string
  Path_String :: "'p \<Rightarrow> string"
  IsInitialized :: "'m location_scheme \<Rightarrow> bool"
  Location_String :: "'m location_scheme \<Rightarrow> string"
  ToString :: "'x any \<Rightarrow> string"
  IndentStringIn :: "string \<Rightarrow> string \<Rightarrow> string"

text \<open>\<open>strings.Index\<close>: the index of the first instance of \<open>sep\<close> in \<open>s\<close>, or -1.\<close>

fun strings_Index :: "string \<Rightarrow> string \<Rightarrow> int" where
  "strings_Index [] sep = (if sep = [] then 0 else -1)"
| "strings_Index (c # s) sep =
     (if take (length sep) (c # s) = sep then 0
      else (let pos = strings_Index s sep in if pos < 0 then -1 else pos + 1))"

definition GotString :: "('p, 'm, 'x) rendering \<Rightarrow> ('op, 'p, 'm, 'x) error \<Rightarrow> string" where
  "GotString env e = (if Summary e \<noteq> None then [] else ToString env (Got e))"

definition ExpectedString :: "('p, 'm, 'x) rendering \<Rightarrow> ('op, 'p, 'm, 'x) error \<Rightarrow> string" where
  "ExpectedString env e = (if Summary e \<noteq> None then [] else ToString env (Expected e))"

text \<open>The closure \<open>writeEolPrefix\<close>, by what it writes.\<close>

definition writeEolPrefix :: "string \<Rightarrow> string" where
  "writeEolPrefix prefix = (if prefix \<noteq> [] then CHR 0x0A # prefix else [CHR 0x0A])"

text \<open>
  \<open>Append\<close>. The buffer is only written to, so the model returns the text that the call
  writes, each write in the order of the code.
\<close>

fun Append :: "('p, 'm, 'x) rendering \<Rightarrow> ('op, 'p, 'm, 'x) error \<Rightarrow> string \<Rightarrow> string" where
  "Append env (Error i ctx msg got expected summary loc origin nxt) prefix =
     (let e = Error i ctx msg got expected summary loc origin nxt in
      if i = IsBooleanError then []
      else
        (if prefix \<noteq> [] then prefix else []) @
        (if i = IsErrTooManyErrors then TitleOn env @ msg @ TitleOff env
         else
           TitleOn env @
           (let pos = strings_Index msg ''%%'' in
            if pos \<ge> 0 then
              take (nat pos) msg @ Path_String env (Path ctx) @ drop (nat pos + 2) msg
            else
              Path_String env (Path ctx) @ '': '' @ msg) @
           TitleOff env @
           (case summary of
              Some AppendSummary \<Rightarrow> [CHR 0x0A] @ AppendSummary (prefix @ [CHR 0x09])
            | None \<Rightarrow>
                writeEolPrefix prefix @
                BadOnBold env @
                [CHR 0x09] @ ''     got: '' @
                BadOn env @
                IndentStringIn env (GotString env e) (prefix @ [CHR 0x09] @ ''          '') @
                BadOff env @
                writeEolPrefix prefix @
                OKOnBold env @
                [CHR 0x09] @ ''expected: '' @
                OKOn env @
                IndentStringIn env (ExpectedString env e) (prefix @ [CHR 0x09] @ ''          '') @
                OKOff env) @
           (case origin of
              Some org \<Rightarrow>
                writeEolPrefix prefix @
                ''Originates from following error:'' @ [CHR 0x0A] @
                Append env org (prefix @ [CHR 0x09])
            | None \<Rightarrow> []) @
           (if IsInitialized env loc \<and> \<not> BehindCmp loc \<and>
               (case nxt of None \<Rightarrow> True | Some n \<Rightarrow> Location n \<noteq> loc)
            then writeEolPrefix prefix @ ''[under TestDeep operator '' @ Location_String env loc @ '']''
            else []) @
           (case nxt of
              Some n \<Rightarrow> [CHR 0x0A] @ Append env n prefix
            | None \<Rightarrow> [])))"

text \<open>\<open>Error()\<close>.\<close>

definition Error_string :: "('p, 'm, 'x) rendering \<Rightarrow> ('op, 'p, 'm, 'x) error \<Rightarrow> string" where
  "Error_string env e = Append env e []"

section \<open>The operators\<close>

text \<open>
  The interface \<open>TestDeep\<close> by its method table: what each of the four methods of the
  protocol does on an operator of type \<open>'op\<close>. Whether a Go value implements \<open>TestDeep\<close>
  is the type assertion \<open>x.(TestDeep)\<close>, a parameter \<open>asTestDeep\<close> of the functions below.
  An \<open>interface{}\<close> argument is given by its \<open>reflect.Value\<close>, the invalid value for
  untyped nil.
\<close>

record ('op, 'c, 'e) TestDeep =
  op_Match :: "'op \<Rightarrow> 'c \<Rightarrow> val \<Rightarrow> 'e"
  op_String :: "'op \<Rightarrow> string"
  op_TypeBehind :: "'op \<Rightarrow> rtype option"
  op_HandleInvalid :: "'op \<Rightarrow> bool"

definition nil_dereference :: "string + 'a" where
  "nil_dereference = Inl ''invalid memory address or nil pointer dereference''"

subsection \<open>td\_shallow.go\<close>

record 'b tdShallow =
  Base :: 'b
  expectedKind :: kind
  expectedPointer :: uintptr
  expectedStr :: gostring

definition stringPointer :: "gostring \<Rightarrow> uintptr" where
  "stringPointer s = Data s"

text \<open>\<open>Kind.String()\<close> of \<open>reflect\<close>.\<close>

fun kind_String :: "kind \<Rightarrow> string" where
  "kind_String KInvalid = ''invalid''"
| "kind_String KBool = ''bool''"
| "kind_String KInt = ''int''"
| "kind_String KInt8 = ''int8''"
| "kind_String KInt16 = ''int16''"
| "kind_String KInt32 = ''int32''"
| "kind_String KInt64 = ''int64''"
| "kind_String KUint = ''uint''"
| "kind_String KUint8 = ''uint8''"
| "kind_String KUint16 = ''uint16''"
| "kind_String KUint32 = ''uint32''"
| "kind_String KUint64 = ''uint64''"
| "kind_String KUintptr = ''uintptr''"
| "kind_String KFloat32 = ''float32''"
| "kind_String KFloat64 = ''float64''"
| "kind_String KComplex64 = ''complex64''"
| "kind_String KComplex128 = ''complex128''"
| "kind_String KArray = ''array''"
| "kind_String KChan = ''chan''"
| "kind_String KFunc = ''func''"
| "kind_String KInterface = ''interface''"
| "kind_String KMap = ''map''"
| "kind_String KPtr = ''ptr''"
| "kind_String KSlice = ''slice''"
| "kind_String KString = ''string''"
| "kind_String KStruct = ''struct''"
| "kind_String KUnsafePointer = ''unsafe.Pointer''"

text \<open>The verb \<open>%x\<close> of \<open>fmt\<close> on an unsigned number.\<close>

definition hex_digit :: "nat \<Rightarrow> char" where
  "hex_digit n = ''0123456789abcdef'' ! n"

fun hex :: "nat \<Rightarrow> string" where
  "hex n = (if n < 16 then [hex_digit n] else hex (n div 16) @ [hex_digit (n mod 16)])"

text \<open>\<open>Shallow\<close>; \<open>vptr\<close> is \<open>reflect.ValueOf(expectedPtr)\<close>, and \<open>NewBase\<close>, which is defined
  with the type \<open>Base\<close>, is a parameter.\<close>

definition Shallow :: "(nat \<Rightarrow> 'b) \<Rightarrow> val \<Rightarrow> string + 'b tdShallow" where
  "Shallow NewBase vptr =
     (let shallow = \<lparr>Base = NewBase 3, expectedKind = Kind vptr, expectedPointer = 0,
                      expectedStr = GoString 0 []\<rparr>
      in
      if expectedKind shallow \<in> {KChan, KFunc, KMap, KPtr, KSlice, KUnsafePointer} then
        (case Pointer vptr of
           Inl e \<Rightarrow> Inl e
         | Inr p \<Rightarrow> Inr (shallow\<lparr>expectedPointer := p\<rparr>))
      else if expectedKind shallow = KString then
        (let shallow = shallow\<lparr>expectedStr := String vptr\<rparr>
         in Inr (shallow\<lparr>expectedPointer := stringPointer (expectedStr shallow)\<rparr>))
      else Inl ''usage: Shallow(CHANNEL|FUNC|MAP|PTR|SLICE|UNSAFE_PTR|STRING)'')"

text \<open>The literal \<open>&ctxerr.Error{Message: ..., Got: ..., Expected: ...}\<close>.\<close>

definition new_Error :: "string \<Rightarrow> 'x any \<Rightarrow> 'x any \<Rightarrow> ('op, 'p::zero, 'm::zero, 'x) error" where
  "new_Error msg got expected =
     Error Allocated zero_context msg got expected None zero_location None None"

text \<open>\<open>Match\<close> of \<open>tdShallow\<close>; the method \<open>CollectError\<close> of the context is a parameter.
  The result is a panic or the \<open>*ctxerr.Error\<close> returned, \<open>None\<close> for nil.\<close>

definition tdShallow_Match ::
  "(('op, 'p) ctxerr_Context \<Rightarrow> ('op, 'p::zero, 'm::zero, 'x) error \<Rightarrow> ('op, 'p, 'm, 'x) error option) \<Rightarrow>
     'b tdShallow \<Rightarrow> ('op, 'p) ctxerr_Context \<Rightarrow> val \<Rightarrow> string + ('op, 'p, 'm, 'x) error option" where
  "tdShallow_Match CollectError s ctx got =
     (if Kind got \<noteq> expectedKind s then
        (if BooleanError ctx then Inr (Some ctxerr_BooleanError)
         else Inr (CollectError ctx
                (new_Error ''bad kind''
                   (RawString (kind_String (Kind got)))
                   (RawString (kind_String (expectedKind s))))))
      else
        (case (if expectedKind s = KString then Inr (stringPointer (String got))
               else Pointer got) of
           Inl e \<Rightarrow> Inl e
         | Inr ptr \<Rightarrow>
             if ptr \<noteq> expectedPointer s then
               (if BooleanError ctx then Inr (Some ctxerr_BooleanError)
                else Inr (CollectError ctx
                       (new_Error (kind_String (expectedKind s) @ '' pointer mismatch'')
                          (RawString (''0x'' @ hex (unat ptr)))
                          (RawString (''0x'' @ hex (unat (expectedPointer s)))))))
             else Inr None))"

definition tdShallow_String :: "'b tdShallow \<Rightarrow> string" where
  "tdShallow_String s =
     ''('' @ kind_String (expectedKind s) @ '') 0x'' @ hex (unat (expectedPointer s))"

text \<open>A Go string expression \<open>s[i:j]\<close>: the view shares the storage of \<open>s\<close>.\<close>

definition substring :: "gostring \<Rightarrow> nat \<Rightarrow> nat \<Rightarrow> string + gostring" where
  "substring s i j =
     (if i \<le> j \<and> j \<le> length (bytes s)
      then Inr (GoString (Data s + of_nat i) (take (j - i) (drop i (bytes s))))
      else Inl ''slice bounds out of range'')"

subsection \<open>td/td\_tag.go\<close>

text \<open>\<open>tdSmugglerBase\<close>, by the two fields that \<open>tdTag\<close> reads.\<close>

record tdSmugglerBase =
  expectedValue :: val
  isTestDeeper :: bool

record tdTag = tdSmugglerBase +
  tag :: string

text \<open>
  Modelled from the spec: \<open>newSmugglerBase\<close> is missing from the sources. A tagged
  passthrough carries a wrapped value, literal or operator; by the comment of \<open>Tag\<close> and
  the uses of \<open>isTestDeeper\<close>, the base is initialised only when the value is an operator.
\<close>

definition newSmugglerBase :: "(val \<Rightarrow> 'op option) \<Rightarrow> val \<Rightarrow> tdSmugglerBase" where
  "newSmugglerBase asTestDeep v =
     (case asTestDeep v of
        Some _ \<Rightarrow> \<lparr>expectedValue = v, isTestDeeper = True\<rparr>
      | None \<Rightarrow> \<lparr>expectedValue = Invalid, isTestDeeper = False\<rparr>)"

text \<open>\<open>Tag\<close>; \<open>util.CheckTag\<close> (by the error it returns, if any) and \<open>color.Bad\<close> are
  parameters.\<close>

definition Tag ::
  "(val \<Rightarrow> 'op option) \<Rightarrow> (string \<Rightarrow> string option) \<Rightarrow> (string \<Rightarrow> string list \<Rightarrow> string) \<Rightarrow>
     string \<Rightarrow> val \<Rightarrow> string + tdTag" where
  "Tag asTestDeep CheckTag Bad tg expectedVal =
     (case CheckTag tg of
        Some err \<Rightarrow> Inl (Bad ''Tag(): %s'' [err])
      | None \<Rightarrow>
          (let t = tdSmugglerBase.extend (newSmugglerBase asTestDeep expectedVal)
                     (tdTag.fields tg)
           in Inr (if \<not> isTestDeeper t then t\<lparr>expectedValue := expectedVal\<rparr> else t)))"

text \<open>The methods of \<open>tdTag\<close>; \<open>deepValueEqual\<close> and \<open>util.ToString\<close> are parameters.\<close>

definition tdTag_Match :: "('c \<Rightarrow> val \<Rightarrow> val \<Rightarrow> 'e) \<Rightarrow> tdTag \<Rightarrow> 'c \<Rightarrow> val \<Rightarrow> 'e" where
  "tdTag_Match deepValueEqual t ctx got = deepValueEqual ctx got (expectedValue t)"

definition tdTag_HandleInvalid :: "tdTag \<Rightarrow> bool" where
  "tdTag_HandleInvalid t = True"

definition interface_conversion :: "string + 'a" where
  "interface_conversion = Inl ''interface conversion: value is not td.TestDeep''"

definition tdTag_String ::
  "(val \<Rightarrow> 'op option) \<Rightarrow> ('op, 'c, 'e) TestDeep \<Rightarrow> (val \<Rightarrow> string) \<Rightarrow> tdTag \<Rightarrow> string + string" where
  "tdTag_String asTestDeep td ToStr t =
     (if isTestDeeper t then
        (case asTestDeep (expectedValue t) of
           None \<Rightarrow> interface_conversion
         | Some op \<Rightarrow> Inr (op_String td op))
      else Inr (ToStr (expectedValue t)))"

definition tdTag_TypeBehind ::
  "(val \<Rightarrow> 'op option) \<Rightarrow> ('op, 'c, 'e) TestDeep \<Rightarrow> tdTag \<Rightarrow> string + rtype option" where
  "tdTag_TypeBehind asTestDeep td t =
     (if isTestDeeper t then
        (case asTestDeep (expectedValue t) of
           None \<Rightarrow> interface_conversion
         | Some op \<Rightarrow> Inr (op_TypeBehind td op))
      else if IsValid (expectedValue t) then Inr (Type (expectedValue t))
      else Inr None)"

subsection \<open>td/td\_delay.go\<close>

text \<open>
  \<open>tdDelay\<close>. The function \<open>delayed\<close> may answer differently each time it runs: it is given
  by what its n-th run returns (counting from 0), \<open>None\<close> for a nil operator. \<open>once\<close> is
  the flag of \<open>sync.Once\<close>.
\<close>

record ('b, 'op) tdDelay =
  base :: 'b
  operator :: "'op option"
  once :: bool
  delayed :: "nat \<Rightarrow> 'op option"

text \<open>\<open>Delay\<close>; a nil function is \<open>None\<close>.\<close>

definition Delay ::
  "(nat \<Rightarrow> 'b) \<Rightarrow> (string \<Rightarrow> string list \<Rightarrow> string) \<Rightarrow> (nat \<Rightarrow> 'op option) option \<Rightarrow>
     string + ('b, 'op) tdDelay" where
  "Delay newBase Bad dl =
     (case dl of
        None \<Rightarrow> Inl (Bad ''Delay(DELAYED): DELAYED must be non-nil'' [])
      | Some f \<Rightarrow> Inr \<lparr>base = newBase 3, operator = None, once = False, delayed = f\<rparr>)"

text \<open>
  The state that the methods of a wrapper work on: the wrapper and the number of runs of
  \<open>delayed\<close> so far. \<open>once.Do\<close> is one step: \<open>sync.Once\<close> lets no other call of \<open>Do\<close>
  in before the function has returned.
\<close>

type_synonym ('b, 'op) delay_state = "('b, 'op) tdDelay \<times> nat"

definition once_Do :: "('b, 'op) delay_state \<Rightarrow> ('b, 'op) delay_state" where
  "once_Do st =
     (case st of (d, runs) \<Rightarrow>
        if once d then (d, runs)
        else (d\<lparr>operator := delayed d runs, once := True\<rparr>, Suc runs))"

definition getOperator :: "('b, 'op) delay_state \<Rightarrow> 'op option \<times> ('b, 'op) delay_state" where
  "getOperator st = (let st' = once_Do st in (operator (fst st'), st'))"

definition tdDelay_Match ::
  "('op, ('op, 'p) ctxerr_Context, 'e) TestDeep \<Rightarrow> ('b, 'op) delay_state \<Rightarrow>
     ('op, 'p) ctxerr_Context \<Rightarrow> val \<Rightarrow> (string + 'e) \<times> ('b, 'op) delay_state" where
  "tdDelay_Match td st ctx got =
     (case getOperator st of (op, st') \<Rightarrow>
        (let ctx = ctx\<lparr>CurOperator := op\<rparr> in
         (case op of None \<Rightarrow> nil_dereference | Some x \<Rightarrow> Inr (op_Match td x ctx got), st')))"

definition tdDelay_String ::
  "('op, 'c, 'e) TestDeep \<Rightarrow> ('b, 'op) delay_state \<Rightarrow> (string + string) \<times> ('b, 'op) delay_state" where
  "tdDelay_String td st =
     (case getOperator st of (op, st') \<Rightarrow>
        (case op of None \<Rightarrow> nil_dereference | Some x \<Rightarrow> Inr (op_String td x), st'))"

definition tdDelay_TypeBehind ::
  "('op, 'c, 'e) TestDeep \<Rightarrow> ('b, 'op) delay_state \<Rightarrow>
     (string + rtype option) \<times> ('b, 'op) delay_state" where
  "tdDelay_TypeBehind td st =
     (case getOperator st of (op, st') \<Rightarrow>
        (case op of None \<Rightarrow> nil_dereference | Some x \<Rightarrow> Inr (op_TypeBehind td x), st'))"

definition tdDelay_HandleInvalid ::
  "('op, 'c, 'e) TestDeep \<Rightarrow> ('b, 'op) delay_state \<Rightarrow> (string + bool) \<times> ('b, 'op) delay_state" where
  "tdDelay_HandleInvalid td st =
     (case getOperator st of (op, st') \<Rightarrow>
        (case op of None \<Rightarrow> nil_dereference | Some x \<Rightarrow> Inr (op_HandleInvalid td x), st'))"

text \<open>A call of one of the four methods of the protocol on a wrapper, and what it returns.\<close>

datatype 'c call = CallMatch 'c val | CallString | CallTypeBehind | CallHandleInvalid

datatype 'e reply =
  MatchReply 'e | StringReply string | TypeBehindReply "rtype option" | HandleInvalidReply bool

text \<open>The method of \<open>tdDelay\<close> that a call names.\<close>

definition invoke ::
  "('op, ('op, 'p) ctxerr_Context, 'e) TestDeep \<Rightarrow> ('b, 'op) delay_state \<Rightarrow>
     ('op, 'p) ctxerr_Context call \<Rightarrow> (string + 'e reply) \<times> ('b, 'op) delay_state" where
  "invoke td st c =
     (case c of
        CallMatch ctx got \<Rightarrow> apfst (map_sum id MatchReply) (tdDelay_Match td st ctx got)
      | CallString \<Rightarrow> apfst (map_sum id StringReply) (tdDelay_String td st)
      | CallTypeBehind \<Rightarrow> apfst (map_sum id TypeBehindReply) (tdDelay_TypeBehind td st)
      | CallHandleInvalid \<Rightarrow> apfst (map_sum id HandleInvalidReply) (tdDelay_HandleInvalid td st))"

text \<open>Calls made one after the other on the same wrapper.\<close>

fun invoke_all ::
  "('op, ('op, 'p) ctxerr_Context, 'e) TestDeep \<Rightarrow> ('b, 'op) delay_state \<Rightarrow>
     ('op, 'p) ctxerr_Context call list \<Rightarrow> (string + 'e reply) list \<times> ('b, 'op) delay_state" where
  "invoke_all td st [] = ([], st)"
| "invoke_all td st (c # cs) =
     (case invoke td st c of (r, st') \<Rightarrow>
        (case invoke_all td st' cs of (rs, st'') \<Rightarrow> (r # rs, st'')))"

text \<open>What a method of the wrapper returns when \<open>getOperator\<close> gives \<open>op\<close>: the method
  of the same name of \<open>op\<close>.\<close>

definition forward ::
  "('op, ('op, 'p) ctxerr_Context, 'e) TestDeep \<Rightarrow> 'op option \<Rightarrow>
     ('op, 'p) ctxerr_Context call \<Rightarrow> string + 'e reply" where
  "forward td op c =
     (case op of
        None \<Rightarrow> nil_dereference
      | Some x \<Rightarrow>
          Inr (case c of
                 CallMatch ctx got \<Rightarrow> MatchReply (op_Match td x (ctx\<lparr>CurOperator := op\<rparr>) got)
               | CallString \<Rightarrow> StringReply (op_String td x)
               | CallTypeBehind \<Rightarrow> TypeBehindReply (op_TypeBehind td x)
               | CallHandleInvalid \<Rightarrow> HandleInvalidReply (op_HandleInvalid td x)))"

text \<open>
  Concurrent calls. Each caller runs one method: it is ready to call, or inside the
  method with \<open>once.Do\<close> behind it, or has returned. A step of caller \<open>i\<close> is \<open>once.Do\<close>, or
  the rest of the method: reading \<open>d.operator\<close> and forwarding to it. A schedule is the
  list of the callers in the order in which they take their steps.
\<close>

datatype ('c, 'e) thread = Ready "'c call" | InMethod "'c call" | Returned "string + 'e reply"

definition step ::
  "('op, ('op, 'p) ctxerr_Context, 'e) TestDeep \<Rightarrow>
     ('b, 'op) delay_state \<times> (('op, 'p) ctxerr_Context, 'e) thread list \<Rightarrow> nat \<Rightarrow>
     ('b, 'op) delay_state \<times> (('op, 'p) ctxerr_Context, 'e) thread list" where
  "step td cfg i =
     (case cfg of (st, ths) \<Rightarrow>
        if i < length ths then
          (case ths ! i of
             Ready c \<Rightarrow> (once_Do st, ths[i := InMethod c])
           | InMethod c \<Rightarrow> (st, ths[i := Returned (forward td (operator (fst st)) c)])
           | Returned r \<Rightarrow> (st, ths))
        else (st, ths))"

definition run ::
  "('op, ('op, 'p) ctxerr_Context, 'e) TestDeep \<Rightarrow>
     ('b, 'op) delay_state \<times> (('op, 'p) ctxerr_Context, 'e) thread list \<Rightarrow> nat list \<Rightarrow>
     ('b, 'op) delay_state \<times> (('op, 'p) ctxerr_Context, 'e) thread list" where
  "run td cfg sched = foldl (step td) cfg sched"

text \<open>The wrapper once its operator is built, and the invariant of the concurrent calls.\<close>

definition built ::
  "(nat \<Rightarrow> 'op option) \<Rightarrow> ('b, 'op) delay_state \<Rightarrow> bool" where
  "built f st \<longleftrightarrow> once (fst st) \<and> operator (fst st) = f 0 \<and> snd st = 1 \<and> delayed (fst st) = f"

definition inv ::
  "('op, ('op, 'p) ctxerr_Context, 'e) TestDeep \<Rightarrow> (nat \<Rightarrow> 'op option) \<Rightarrow>
     ('op, 'p) ctxerr_Context call list \<Rightarrow>
     ('b, 'op) delay_state \<times> (('op, 'p) ctxerr_Context, 'e) thread list \<Rightarrow> bool" where
  "inv td f cs cfg \<longleftrightarrow>
     (case cfg of (st, ths) \<Rightarrow>
        length ths = length cs \<and> delayed (fst st) = f \<and>
        ((\<not> once (fst st) \<and> snd st = 0 \<and> ths = map Ready cs) \<or>
         (built f st \<and> (\<exists>i<length cs. ths ! i \<noteq> Ready (cs ! i)) \<and>
          (\<forall>i<length cs. ths ! i = Ready (cs ! i) \<or> ths ! i = InMethod (cs ! i) \<or>
               ths ! i = Returned (forward td (f 0) (cs ! i))))))"

subsection \<open>The rendering of an error, part by part\<close>

text \<open>
  The parts that the spec lists for the rendering of an error, each as a text of its own:
  the message with the path, the values or the summary, the origin, the line of the
  location, the next error.
\<close>

text \<open>The message of a title with the first marker replaced by the path, if there is one.\<close>

fun substitute_path :: "string \<Rightarrow> string \<Rightarrow> string option" where
  "substitute_path path [] = None"
| "substitute_path path [c] = None"
| "substitute_path path (c # d # s) =
     (if c = CHR ''%'' \<and> d = CHR ''%'' then Some (path @ s)
      else map_option ((#) c) (substitute_path path (d # s)))"

definition title_text :: "('p, 'm, 'x) rendering \<Rightarrow> ('op, 'p, 'm, 'x) error \<Rightarrow> string" where
  "title_text env e =
     (let path = Path_String env (Path (Context e)) in
      case substitute_path path (Message e) of
        Some m \<Rightarrow> m
      | None \<Rightarrow> path @ '': '' @ Message e)"

definition eol :: "string \<Rightarrow> string" where
  "eol prefix = CHR 0x0A # prefix"

definition values_text :: "('p, 'm, 'x) rendering \<Rightarrow> ('op, 'p, 'm, 'x) error \<Rightarrow> string \<Rightarrow> string" where
  "values_text env e prefix =
     (case Summary e of
        Some AppendSummary \<Rightarrow> eol [] @ AppendSummary (prefix @ [CHR 0x09])
      | None \<Rightarrow>
          eol prefix @ BadOnBold env @ [CHR 0x09] @ ''     got: '' @ BadOn env @
          IndentStringIn env (ToString env (Got e)) (prefix @ [CHR 0x09] @ ''          '') @
          BadOff env @
          eol prefix @ OKOnBold env @ [CHR 0x09] @ ''expected: '' @ OKOn env @
          IndentStringIn env (ToString env (Expected e)) (prefix @ [CHR 0x09] @ ''          '') @
          OKOff env)"

definition origin_text :: "('p, 'm, 'x) rendering \<Rightarrow> ('op, 'p, 'm, 'x) error \<Rightarrow> string \<Rightarrow> string" where
  "origin_text env e prefix =
     (case Origin e of
        None \<Rightarrow> []
      | Some org \<Rightarrow>
          eol prefix @ ''Originates from following error:'' @ eol [] @
          Append env org (prefix @ [CHR 0x09]))"

definition location_line :: "('p, 'm, 'x) rendering \<Rightarrow> ('op, 'p, 'm, 'x) error \<Rightarrow> string \<Rightarrow> string" where
  "location_line env e prefix =
     eol prefix @ ''[under TestDeep operator '' @ Location_String env (Location e) @ '']''"

definition location_shown :: "('p, 'm, 'x) rendering \<Rightarrow> ('op, 'p, 'm, 'x) error \<Rightarrow> bool" where
  "location_shown env e \<longleftrightarrow>
     IsInitialized env (Location e) \<and> \<not> BehindCmp (Location e) \<and>
     (Next e = None \<or> Location (the (Next e)) \<noteq> Location e)"

definition next_text :: "('p, 'm, 'x) rendering \<Rightarrow> ('op, 'p, 'm, 'x) error \<Rightarrow> string \<Rightarrow> string" where
  "next_text env e prefix =
     (case Next e of None \<Rightarrow> [] | Some n \<Rightarrow> eol [] @ Append env n prefix)"

definition rendering_in_order ::
  "('p, 'm, 'x) rendering \<Rightarrow> ('op, 'p, 'm, 'x) error \<Rightarrow> string \<Rightarrow> string" where
  "rendering_in_order env e prefix =
     prefix @ TitleOn env @ title_text env e @ TitleOff env @
     values_text env e prefix @
     origin_text env e prefix @
     (if location_shown env e then location_line env e prefix else []) @
     next_text env e prefix"

section \<open>Example data\<close>

subsection \<open>Example heaps\<close>



text \<open>Two cyclic values: at addresses 1 and 2, a struct whose only field points back to
  the struct itself.\<close>

definition hc :: heap where
  "hc = \<lparr>pointee = (\<lambda>p. if p = 1 then Some (VStruct (''Node'', 0) [VPtr (''*Node'', 0) 1])
                        else if p = 2 then Some (VStruct (''Node'', 0) [VPtr (''*Node'', 0) 2])
                        else None),
         backing = (\<lambda>_. []), entries = (\<lambda>_. [])\<rparr>"

text \<open>A wrapper whose function returns the number of its earlier runs as operator, and the
  method table of such operators.\<close>

definition counting_ops :: "(nat, (nat, nat) ctxerr_Context, nat) TestDeep" where
  "counting_ops = \<lparr>op_Match = (\<lambda>x ctx got. x), op_String = (\<lambda>x. hex x),
                    op_TypeBehind = (\<lambda>x. None), op_HandleInvalid = (\<lambda>x. x = 0)\<rparr>"

definition counting_delay :: "(unit, nat) tdDelay" where
  "counting_delay = \<lparr>base = (), operator = None, once = False, delayed = Some\<rparr>"

text \<open>A string and the operator that \<open>Shallow\<close> builds from it; a \<open>CollectError\<close> that
  sets the context of the error.\<close>

definition foobar :: gostring where
  "foobar = GoString 0x1000 ''foobar yes!''"

definition shallow_foobar :: "unit tdShallow" where
  "shallow_foobar = \<lparr>Base = (), expectedKind = KString, expectedPointer = 0x1000, expectedStr = foobar\<rparr>"

definition collect_all ::
  "(nat, nat) ctxerr_Context \<Rightarrow> (nat, nat, nat, nat) error \<Rightarrow> (nat, nat, nat, nat) error option" where
  "collect_all ctx e = Some (Error (ident e) ctx (Message e) (Got e) (Expected e) (Summary e)
     (Location e) (Origin e) (Next e))"

text \<open>A rendering without colours, where a location is its line number, and errors to
  render.\<close>

definition plain_rendering :: "(nat, nat, nat) rendering" where
  "plain_rendering =
     \<lparr>TitleOn = [], TitleOff = [], BadOnBold = [], BadOn = [], BadOff = [],
      OKOnBold = [], OKOn = [], OKOff = [],
      Path_String = (\<lambda>p. ''DATA''),
      IsInitialized = (\<lambda>l. location.more l \<noteq> 0),
      Location_String = (\<lambda>l. ''Op() at line '' @ hex (location.more l)),
      ToString = (\<lambda>x. case x of Nil \<Rightarrow> ''nil'' | RawString s \<Rightarrow> s | Any n \<Rightarrow> hex n),
      IndentStringIn = (\<lambda>s indent. s)\<rparr>"

definition line5 :: "nat location_scheme" where
  "line5 = \<lparr>BehindCmp = False, \<dots> = 5\<rparr>"

definition mismatch :: "(nat, nat, nat, nat) error option \<Rightarrow> (nat, nat, nat, nat) error" where
  "mismatch nxt = Error Allocated zero_context ''bad'' (Any 1) (Any 2) None line5 None nxt"

definition behind_cmp :: "(nat, nat, nat, nat) error" where
  "behind_cmp =
     Error Allocated zero_context ''bad'' (Any 1) (Any 2) None \<lparr>BehindCmp = True, \<dots> = 5\<rparr> None None"

text \<open>A check of tag names, a type assertion that takes the pointers of one type for
  operators, and the method table of these operators.\<close>

definition check_tag :: "string \<Rightarrow> string option" where
  "check_tag tg = (if tg = [] then Some ''A tag name cannot be empty'' else None)"

definition as_operator :: "val \<Rightarrow> nat option" where
  "as_operator v = (case v of VPtr t p \<Rightarrow> if fst t = ''*td.tdOp'' then Some (unat p) else None | _ \<Rightarrow> None)"

definition int_ops :: "(nat, (nat, nat) ctxerr_Context, nat) TestDeep" where
  "int_ops = \<lparr>op_Match = (\<lambda>x ctx got. x), op_String = (\<lambda>x. hex x),
               op_TypeBehind = (\<lambda>x. Some (RType KInt ''int'' 0)), op_HandleInvalid = (\<lambda>x. False)\<rparr>"

section \<open>Properties of the comparator\<close>

subsection \<open>More fuel, larger visited set\<close>

lemma cmp_items_mono:
  assumes "\<And>v x y r. f v x y = Some r \<Longrightarrow> g v x y = Some r"
  shows "cmp_items f ia ib v is = Some r \<Longrightarrow> cmp_items g ia ib v is = Some r"
proof (induction "is" arbitrary: v)
  case Nil
  then show ?case by simp
next
  case (Cons i "is")
  show ?case
  proof (cases "ia i")
    case (Inl e)
    with Cons.prems show ?thesis by simp
  next
    case x: (Inr x)
    show ?thesis
    proof (cases "ib i")
      case (Inl e)
      with Cons.prems x show ?thesis by simp
    next
      case y: (Inr y)
      show ?thesis
      proof (cases "f v x y")
        case None
        with Cons.prems x y show ?thesis by simp
      next
        case (Some res)
        then have g: "g v x y = Some res" by (rule assms)
        show ?thesis
        proof (cases res)
          case (Inl e)
          with Cons.prems x y Some g show ?thesis by simp
        next
          case (Inr p)
          obtain r0 v' where p: "p = (r0, v')" by (cases p)
          show ?thesis
          proof (cases "r0 = 0")
            case True
            with Cons.prems x y Some Inr p have "cmp_items f ia ib v' is = Some r" by simp
            then have "cmp_items g ia ib v' is = Some r" by (rule Cons.IH)
            with x y g Inr p True show ?thesis by simp
          next
            case False
            with Cons.prems x y Some g Inr p show ?thesis by simp
          qed
        qed
      qed
    qed
  qed
qed

lemma cmp_body_mono:
  assumes fg: "\<And>v x y r. f v x y = Some r \<Longrightarrow> g v x y = Some r"
    and c: "cmp_body f R h v a b = Some r"
  shows "cmp_body g R h v a b = Some r"
proof -
  have im: "\<And>ia ib v is r. cmp_items f ia ib v is = Some r \<Longrightarrow> cmp_items g ia ib v is = Some r"
    using cmp_items_mono [of f g] fg by blast
  have im2: "\<And>ia ib v is r. cmp_items f ia ib v is = Some r \<Longrightarrow> cmp_items g ia ib v is = cmp_items f ia ib v is"
    using im by simp
  have fg2: "\<And>v x y r. f v x y = Some r \<Longrightarrow> g v x y = f v x y"
    using fg by simp
  show ?thesis
  proof (cases "\<not> IsValid a \<or> \<not> IsValid b \<or> Type a \<noteq> Type b \<or> fst (R v a b)")
    case True
    with c show ?thesis
      unfolding cmp_body_def by (auto simp: Let_def split: if_splits prod.splits bool.splits)
  next
    case False
    obtain v' where R: "R v a b = (False, v')" using False by (cases "R v a b") auto
    from False R c show ?thesis
      unfolding cmp_body_def
      by (cases a) (auto simp: Let_def im2 fg2 split: sum.splits option.splits if_splits)
  qed
qed

lemma cmp_fuel_Suc: "cmp n R h v a b = Some r \<Longrightarrow> cmp (Suc n) R h v a b = Some r"
proof (induction n arbitrary: v a b r)
  case 0
  then show ?case by simp
next
  case (Suc n)
  from Suc.prems have "cmp_body (cmp n R h) R h v a b = Some r" by simp
  then have "cmp_body (cmp (Suc n) R h) R h v a b = Some r"
    by (rule cmp_body_mono [rotated]) (rule Suc.IH)
  then show ?case by simp
qed

lemma cmp_fuel_le: "n \<le> m \<Longrightarrow> cmp n R h v a b = Some r \<Longrightarrow> cmp m R h v a b = Some r"
  by (induction m) (auto simp: le_Suc_eq dest: cmp_fuel_Suc simp del: cmp.simps)

lemma Record_grows: "Record v a b = (x, v') \<Longrightarrow> v \<subseteq> v'"
  by (auto simp: Record_def split: option.splits if_splits)

lemma cmp_items_grows:
  assumes "\<And>v x y r v'. f v x y = Some (Inr (r, v')) \<Longrightarrow> v \<subseteq> v'"
  shows "cmp_items f ia ib v is = Some (Inr (r, v')) \<Longrightarrow> v \<subseteq> v'"
proof (induction "is" arbitrary: v)
  case Nil
  then show ?case by (simp add: ret_def)
next
  case (Cons i "is")
  from Cons.prems obtain x y where x: "ia i = Inr x" and y: "ib i = Inr y"
    by (auto simp: panic_def split: sum.splits)
  from Cons.prems x y obtain r0 v0 where f: "f v x y = Some (Inr (r0, v0))"
    by (auto simp: panic_def split: sum.splits option.splits)
  then have 1: "v \<subseteq> v0" by (rule assms)
  show ?case
  proof (cases "r0 = 0")
    case True
    with Cons.prems x y f have "cmp_items f ia ib v0 is = Some (Inr (r, v'))" by simp
    then have "v0 \<subseteq> v'" by (rule Cons.IH)
    with 1 show ?thesis by simp
  next
    case False
    with Cons.prems x y f 1 show ?thesis by (simp add: ret_def)
  qed
qed

lemma cmp_body_grows:
  assumes f: "\<And>v x y r v'. f v x y = Some (Inr (r, v')) \<Longrightarrow> v \<subseteq> v'"
    and c: "cmp_body f Record h v a b = Some (Inr (r, v'))"
  shows "v \<subseteq> v'"
proof -
  have ig: "\<And>ia ib v is r v'. cmp_items f ia ib v is = Some (Inr (r, v')) \<Longrightarrow> v \<subseteq> v'"
    using cmp_items_grows [of f] f by blast
  show ?thesis
  proof (cases "\<not> IsValid a \<or> \<not> IsValid b \<or> Type a \<noteq> Type b")
    case True
    with c show ?thesis
      unfolding cmp_body_def by (auto simp: Let_def ret_def split: if_splits)
  next
    case False
    obtain x v0 where R: "Record v a b = (x, v0)" by (cases "Record v a b")
    then have 0: "v \<subseteq> v0" by (rule Record_grows)
    show ?thesis
    proof (cases x)
      case True
      with False R c 0 show ?thesis unfolding cmp_body_def by (simp add: ret_def)
    next
      case x: False
      have "v0 \<subseteq> v'"
        using False R c x
        unfolding cmp_body_def
        by (cases a) (auto simp: Let_def ret_def panic_def split: sum.splits option.splits if_splits dest: ig [THEN subsetD] f [THEN subsetD])
      with 0 show ?thesis by simp
    qed
  qed
qed

lemma cmp_grows: "cmp n Record h v a b = Some (Inr (r, v')) \<Longrightarrow> v \<subseteq> v'"
proof (induction n arbitrary: v a b r v')
  case 0
  then show ?case by simp
next
  case (Suc n)
  from Suc.prems have "cmp_body (cmp n Record h) Record h v a b = Some (Inr (r, v'))" by simp
  then show ?case by (rule cmp_body_grows [rotated]) (rule Suc.IH)
qed

lemma cmp_items_total:
  assumes sub: "\<And>v' i x y. v \<subseteq> v' \<Longrightarrow> i \<in> set is \<Longrightarrow> ia i = Inr x \<Longrightarrow> ib i = Inr y \<Longrightarrow>
                  \<exists>n r. cmp n Record h v' x y = Some r"
  shows "\<exists>n r. cmp_items (cmp n Record h) ia ib v is = Some r"
  using sub
proof (induction "is" arbitrary: v)
  case Nil
  then show ?case by (simp add: ret_def)
next
  case (Cons i "is")
  show ?case
  proof (cases "ia i")
    case (Inl e)
    then show ?thesis by (simp add: panic_def)
  next
    case x: (Inr x)
    show ?thesis
    proof (cases "ib i")
      case (Inl e)
      with x show ?thesis by (simp add: panic_def)
    next
      case y: (Inr y)
      from Cons.prems [of v i x y] x y obtain n1 res where n1: "cmp n1 Record h v x y = Some res"
        by auto
      show ?thesis
      proof (cases res)
        case (Inl e)
        with x y n1 have "cmp_items (cmp n1 Record h) ia ib v (i # is) = panic e" by simp
        then show ?thesis by (auto simp: panic_def)
      next
        case (Inr q)
        obtain r0 v0 where q: "q = (r0, v0)" by (cases q)
        show ?thesis
        proof (cases "r0 = 0")
          case False
          with x y n1 Inr q have "cmp_items (cmp n1 Record h) ia ib v (i # is) = ret r0 v0" by simp
          then show ?thesis by (auto simp: ret_def)
        next
          case True
          from n1 Inr q have vv0: "v \<subseteq> v0" by (auto dest: cmp_grows)
          have "\<exists>n r. cmp_items (cmp n Record h) ia ib v0 is = Some r"
          proof (rule Cons.IH)
            fix v' j x' y'
            assume "v0 \<subseteq> v'" "j \<in> set is" "ia j = Inr x'" "ib j = Inr y'"
            with vv0 show "\<exists>n r. cmp n Record h v' x' y' = Some r"
              using Cons.prems [of v' j x' y'] by auto
          qed
          then obtain n2 r2 where n2: "cmp_items (cmp n2 Record h) ia ib v0 is = Some r2" by blast
          let ?n = "max n1 n2"
          have a: "cmp ?n Record h v x y = Some res"
            using n1 by (rule cmp_fuel_le [rotated]) simp
          have b: "cmp_items (cmp ?n Record h) ia ib v0 is = Some r2"
            using n2
          proof (rule cmp_items_mono [rotated])
            fix v x y r
            assume "cmp n2 Record h v x y = Some r"
            then show "cmp ?n Record h v x y = Some r"
              by (rule cmp_fuel_le [rotated]) simp
          qed
          from a b x y Inr q True have "cmp_items (cmp ?n Record h) ia ib v (i # is) = Some r2"
            by simp
          then show ?thesis by blast
        qed
      qed
    qed
  qed
qed

lemma Type_eq_Kind: "Type a = Type b \<Longrightarrow> IsValid a \<Longrightarrow> Kind a = Kind b"
  by (cases a; cases b) (auto simp: Type_def)

lemmas kind_splits = int_kind.splits uint_kind.splits float_kind.splits complex_kind.splits

lemma Kind_KSlice: "Kind b = KSlice \<Longrightarrow> \<exists>t d n. b = VSlice t d n"
  by (cases b) (auto split: kind_splits)

lemma Kind_KPtr: "Kind b = KPtr \<Longrightarrow> \<exists>t p. b = VPtr t p"
  by (cases b) (auto split: kind_splits)

lemma Kind_KInterface: "Kind b = KInterface \<Longrightarrow> \<exists>t x. b = VInterface t x"
  by (cases b) (auto split: kind_splits)

lemma card_compl_mono: "(v :: visited) \<subseteq> v' \<Longrightarrow> card (- v') \<le> card (- v)"
  by (rule card_mono) auto

lemma card_compl_insert: "p \<notin> (v :: visited) \<Longrightarrow> card (- insert p v) < card (- v)"
  by (rule psubset_card_mono) auto

lemma size_nth_less: "i < length xs \<Longrightarrow> size (xs ! i) < Suc (size_list size xs)"
  by (metis le_imp_less_Suc nth_mem order_refl size_list_estimation')

lemma Some_ex_cases:
  "\<exists>r. (case x of None \<Rightarrow> None | Some (Inl e) \<Rightarrow> panic e | Some (Inr (r, v)) \<Rightarrow> Some (g r v)) = Some r"
  if "x = Some y"
  using that by (auto simp: panic_def split: sum.splits)

lemma cmp_total: "\<exists>n r. cmp n Record h v a b = Some r"
proof -
  let ?R = "inv_image (less_than <*lex*> less_than) (\<lambda>(v::visited, a::val). (card (- v), size a))"
  have "wf ?R" by (intro wf_inv_image wf_lex_prod wf_less_than)
  then have "\<forall>b. \<exists>n r. cmp n Record h (fst p) (snd p) b = Some r" for p
  proof (induction p rule: wf_induct_rule)
    case (less p)
    obtain v a where p: "p = (v, a)" by (cases p)
    have IH1: "\<exists>n r. cmp n Record h v' a' b' = Some r" if "card (- v') < card (- v)" for v' a' b'
      using less [of "(v', a')"] that p by simp
    have IH2: "\<exists>n r. cmp n Record h v' a' b' = Some r" if "v \<subseteq> v'" "size a' < size a" for v' a' b'
    proof -
      from that have "card (- v') < card (- v) \<or> card (- v') = card (- v)"
        using card_compl_mono [of v v'] by auto
      with less [of "(v', a')"] that p show ?thesis by simp
    qed
    have step: "\<exists>n r. cmp n Record h v a b = Some r"
      if "\<exists>n r. cmp_body (cmp n Record h) Record h v a b = Some r" for b
    proof -
      from that obtain n r where "cmp (Suc n) Record h v a b = Some r" by auto
      then show ?thesis by blast
    qed
    have "\<exists>n r. cmp n Record h v a b = Some r" for b
    proof (cases "\<not> IsValid a \<or> \<not> IsValid b \<or> Type a \<noteq> Type b")
      case True
      then have "\<exists>r. cmp_body (cmp 0 Record h) Record h v a b = Some r"
        unfolding cmp_body_def by (auto simp: ret_def Let_def)
      then show ?thesis by (intro step) blast
    next
      case False
      then have K: "Kind b = Kind a" using Type_eq_Kind [of a b] by simp
      obtain x v1 where R: "Record v a b = (x, v1)" by (cases "Record v a b")
      then have vv1: "v \<subseteq> v1" by (rule Record_grows)
      show ?thesis
      proof (cases x)
        case True
        with False R have "\<exists>r. cmp_body (cmp 0 Record h) Record h v a b = Some r"
          unfolding cmp_body_def by (auto simp: ret_def)
        then show ?thesis by (intro step) blast
      next
        case x: False
        note pre = False R x
        have leaf: "\<exists>n r. cmp n Record h v a b = Some r"
          if "Kind a \<notin> {KArray, KSlice, KInterface, KStruct, KPtr}"
        proof -
          from pre that have "\<exists>r. cmp_body (cmp 0 Record h) Record h v a b = Some r"
            unfolding cmp_body_def
            by (cases a) (auto simp: ret_def panic_def Let_def split: sum.splits)
          then show ?thesis by (intro step) blast
        qed
        show ?thesis
        proof (cases a)
          case (VArray t xs)
          have "\<exists>n r. cmp_items (cmp n Record h) (Index h a) (Index h b) v1 [0..<length xs] = Some r"
          proof (rule cmp_items_total)
            fix v' i x y
            assume "v1 \<subseteq> v'" "i \<in> set [0..<length xs]" "Index h a i = Inr x"
            with VArray vv1 have "v \<subseteq> v'" "size x < size a"
              by (auto simp: size_nth_less)
            then show "\<exists>n r. cmp n Record h v' x y = Some r" by (rule IH2)
          qed
          with pre VArray have "\<exists>n r. cmp_body (cmp n Record h) Record h v a b = Some r"
            unfolding cmp_body_def by simp
          then show ?thesis by (rule step)
        next
          case (VStruct t xs)
          have "\<exists>n r. cmp_items (cmp n Record h) (Field a) (Field b) v1 [0..<length xs] = Some r"
          proof (rule cmp_items_total)
            fix v' i x y
            assume "v1 \<subseteq> v'" "i \<in> set [0..<length xs]" "Field a i = Inr x"
            with VStruct vv1 have "v \<subseteq> v'" "size x < size a"
              by (auto simp: size_nth_less)
            then show "\<exists>n r. cmp n Record h v' x y = Some r" by (rule IH2)
          qed
          with pre VStruct have "\<exists>n r. cmp_body (cmp n Record h) Record h v a b = Some r"
            unfolding cmp_body_def by simp
          then show ?thesis by (rule step)
        next
          case (VSlice t d al)
          with K obtain t' d' bl where b: "b = VSlice t' d' bl" using Kind_KSlice [of b] by auto
          from R x VSlice b have v1: "v1 = insert (d, d') v" "(d, d') \<notin> v"
            by (auto simp: Record_def split: if_splits)
          have "\<exists>n r. cmp_items (cmp n Record h) (Index h a) (Index h b) v1 is = Some r" for "is"
          proof (rule cmp_items_total)
            fix v' i x y
            assume "v1 \<subseteq> v'"
            then have "card (- v') \<le> card (- v1)" by (rule card_compl_mono)
            also have "\<dots> < card (- v)" using v1 by (simp add: card_compl_insert)
            finally show "\<exists>n r. cmp n Record h v' x y = Some r" by (rule IH1)
          qed
          then obtain n r where
            "cmp_items (cmp n Record h) (Index h a) (Index h b) v1 [0..<(if al > bl then bl else al)] = Some r"
            by blast
          with pre VSlice b have "\<exists>r. cmp_body (cmp n Record h) Record h v a b = Some r"
            unfolding cmp_body_def
            by (auto simp: Let_def ret_def panic_def split: sum.splits)
          then show ?thesis by (intro step) blast
        next
          case (VPtr t pa)
          with K obtain t' pb where b: "b = VPtr t' pb" using Kind_KPtr [of b] by auto
          from R x VPtr b have v1: "v1 = insert (pa, pb) v" "(pa, pb) \<notin> v"
            by (auto simp: Record_def split: if_splits)
          have lt: "card (- v1) < card (- v)" using v1 by (simp add: card_compl_insert)
          show ?thesis
          proof (cases "pa = pb \<or> pa = 0 \<or> pb = 0 \<or> pointee h pa = None \<or> pointee h pb = None")
            case True
            with pre VPtr b have "\<exists>r. cmp_body (cmp 0 Record h) Record h v a b = Some r"
              unfolding cmp_body_def
              by (auto simp: ret_def panic_def split: option.splits)
            then show ?thesis by (intro step) blast
          next
            case False
            then obtain ea eb where e: "pointee h pa = Some ea" "pointee h pb = Some eb" by auto
            from IH1 [OF lt] obtain n r where "cmp n Record h v1 ea eb = Some r" by blast
            with pre VPtr b False e have "cmp_body (cmp n Record h) Record h v a b = Some r"
              unfolding cmp_body_def by simp
            then show ?thesis by (intro step) blast
          qed
        next
          case (VInterface t xo)
          with K obtain t' yo where b: "b = VInterface t' yo" using Kind_KInterface [of b] by auto
          from R x VInterface b have v1: "v1 = v" by (simp add: Record_def)
          show ?thesis
          proof (cases "xo = None \<or> yo = None")
            case True
            with pre VInterface b have "\<exists>r. cmp_body (cmp 0 Record h) Record h v a b = Some r"
              unfolding cmp_body_def
              by (auto simp: ret_def panic_def)
            then show ?thesis by (intro step) blast
          next
            case False
            then obtain ea eb where e: "xo = Some ea" "yo = Some eb" by auto
            have "size ea < size a" using VInterface e by simp
            with IH2 [of v ea eb] obtain n r where "cmp n Record h v ea eb = Some r" by blast
            with pre VInterface b e v1 have "cmp_body (cmp n Record h) Record h v a b = Some r"
              unfolding cmp_body_def by simp
            then show ?thesis by (intro step) blast
          qed
        qed (rule leaf, simp split: kind_splits)+
      qed
    qed
    with p show ?case by simp
  qed
  from this [of "(v, a)"] show ?thesis by simp
qed

subsection \<open>NaN\<close>

text \<open>Away from a pair of NaN, \<open>cmpFloat\<close> is a three-way comparison with NaN the least
  float.\<close>

lemma float_less_asym: "float_less a b \<Longrightarrow> \<not> float_less b a"
  by (cases a; cases b) auto

lemma cmpFloat_NaN_least: "\<not> IsNaN b \<Longrightarrow> cmpFloat NaN b = -1 \<and> cmpFloat b NaN = 1"
  by (cases b) (auto simp: cmpFloat_def)

lemma cmpFloat_refl: "\<not> IsNaN a \<Longrightarrow> cmpFloat a a = 0"
  by (cases a) (auto simp: cmpFloat_def cmpRet_def)

lemma cmpFloat_antisym: "\<not> (IsNaN a \<and> IsNaN b) \<Longrightarrow> cmpFloat a b = - cmpFloat b a"
  using float_less_asym [of a b] float_less_asym [of b a]
  by (auto simp: cmpFloat_def cmpRet_def)

text \<open>
  C1. The claim: \<open>cmp\<close> is a strict weak ordering over arbitrary values, in particular
  \<open>cmp(a, a) = 0\<close> and \<open>cmp(a, b) = -cmp(b, a)\<close> for all values, with NaN the least float.
  The code at the float NaN: \<open>cmpFloat\<close> tests its first argument for NaN before the
  second, so NaN compared with NaN gives -1, not 0, and \<open>cmp\<close> of the value with itself is
  -1 in both directions.
\<close>

theorem cmp_NaN_with_itself:
  "cmpFloat NaN NaN = -1 \<and>
   cmp (Suc n) Record h NewVisited (VFloat t k NaN) (VFloat t k NaN) = ret (-1) NewVisited"
  by (simp add: cmpFloat_def cmp_body_def Record_def Type_def)

subsection \<open>Maps\<close>




subsection \<open>Slices\<close>





subsection \<open>Termination\<close>

text \<open>
  C8. \<open>cmp\<close> returns on every input, whatever the heap holds, cyclic values included,
  and whatever the visited set it starts from: some depth of recursion is enough, and
  any greater depth gives the same outcome. The visited set is consulted before the
  values are looked into: a pair of valid values of one type that \<open>Record\<close> reports as
  already recorded compares as 0, and the comparison of two pointers goes on to what
  they point to under the visited set that \<open>Record\<close> has updated, which for the
  visited set of the spec holds the pair of their addresses.
\<close>

theorem cmp_terminates_with_cycle_guard:
  "(\<exists>n r. \<forall>m\<ge>n. cmp m Record h v a b = Some r) \<and>
   (IsValid a \<and> IsValid b \<and> Type a = Type b \<and> Rec w a b = (True, w') \<longrightarrow>
      cmp (Suc k) Rec h w a b = ret 0 w') \<and>
   (Rec u (VPtr t pa) (VPtr t pb) = (False, u') \<and> pa \<noteq> pb \<and> pa \<noteq> 0 \<and> pb \<noteq> 0 \<and>
    pointee h pa = Some ea \<and> pointee h pb = Some eb \<longrightarrow>
      cmp (Suc j) Rec h u (VPtr t pa) (VPtr t pb) = cmp j Rec h u' ea eb) \<and>
   (identity a = Some p \<and> identity b = Some q \<longrightarrow>
      Record v a b = ((p, q) \<in> v, insert (p, q) v))"
proof -
  obtain n r where "cmp n Record h v a b = Some r" using cmp_total by blast
  then have "\<forall>m\<ge>n. cmp m Record h v a b = Some r" by (auto intro: cmp_fuel_le)
  then have 1: "\<exists>n r. \<forall>m\<ge>n. cmp m Record h v a b = Some r" by blast
  have 2: "IsValid a \<and> IsValid b \<and> Type a = Type b \<and> Rec w a b = (True, w') \<longrightarrow>
      cmp (Suc k) Rec h w a b = ret 0 w'"
    by (simp add: cmp_body_def)
  have 3: "Rec u (VPtr t pa) (VPtr t pb) = (False, u') \<and> pa \<noteq> pb \<and> pa \<noteq> 0 \<and> pb \<noteq> 0 \<and>
    pointee h pa = Some ea \<and> pointee h pb = Some eb \<longrightarrow>
      cmp (Suc j) Rec h u (VPtr t pa) (VPtr t pb) = cmp j Rec h u' ea eb"
    by (simp add: cmp_body_def Type_def)
  have 4: "identity a = Some p \<and> identity b = Some q \<longrightarrow>
      Record v a b = ((p, q) \<in> v, insert (p, q) v)"
    by (auto simp: Record_def)
  from 1 2 3 4 show ?thesis by blast
qed

theorem cmp_terminates_with_cycle_guard_witness:
  "(\<exists>n r. \<forall>m\<ge>n. cmp m Record hc NewVisited (VPtr (''*Node'', 0) 1) (VPtr (''*Node'', 0) 2) = Some r) \<and>
   cmp (Suc (Suc (Suc 0))) Record hc NewVisited (VPtr (''*Node'', 0) 1) (VPtr (''*Node'', 0) 2)
     = ret 0 {(1, 2)} \<and>
   Record {(1, 2)} (VPtr (''*Node'', 0) 1) (VPtr (''*Node'', 0) 2) = (True, {(1, 2)}) \<and>
   cmp (Suc 0) Record hc {(1, 2)} (VPtr (''*Node'', 0) 1) (VPtr (''*Node'', 0) 2) = ret 0 {(1, 2)} \<and>
   Record NewVisited (VPtr (''*Node'', 0) 1) (VPtr (''*Node'', 0) 2) = (False, {(1, 2)}) \<and>
   cmp (Suc (Suc (Suc 0))) Record hc NewVisited (VPtr (''*Node'', 0) 1) (VPtr (''*Node'', 0) 2)
     = cmp (Suc (Suc 0)) Record hc {(1, 2)}
         (VStruct (''Node'', 0) [VPtr (''*Node'', 0) 1]) (VStruct (''Node'', 0) [VPtr (''*Node'', 0) 2])"
proof -
  let ?a = "VPtr (''*Node'', 0) 1" and ?b = "VPtr (''*Node'', 0) 2"
  have rec1: "Record {(1, 2)} ?a ?b = (True, {(1, 2)})"
    by (simp add: Record_def)
  have rec2: "Record NewVisited ?a ?b = (False, {(1, 2)})"
    by (simp add: Record_def NewVisited_def)
  have pt: "pointee hc 1 = Some (VStruct (''Node'', 0) [VPtr (''*Node'', 0) 1])"
    "pointee hc 2 = Some (VStruct (''Node'', 0) [VPtr (''*Node'', 0) 2])"
    by (simp_all add: hc_def)
  have run: "cmp (Suc (Suc (Suc 0))) Record hc NewVisited ?a ?b = ret 0 {(1, 2)}"
    by (simp add: cmp_body_def Record_def NewVisited_def hc_def Type_def ret_def)
  from cmp_terminates_with_cycle_guard [where h = hc and v = NewVisited and a = ?a and b = ?b
      and Rec = Record and w = "{(1, 2)}" and w' = "{(1, 2)}" and u = NewVisited
      and u' = "{(1, 2)}" and t = "(''*Node'', 0)" and pa = 1 and pb = 2 and p = 1 and q = 2
      and ea = "VStruct (''Node'', 0) [VPtr (''*Node'', 0) 1]"
      and eb = "VStruct (''Node'', 0) [VPtr (''*Node'', 0) 2]" and k = 0 and j = "Suc (Suc 0)"]
    rec1 rec2 pt run
  show ?thesis by (simp add: Type_def del: cmp.simps)
qed

section \<open>Properties of the operators\<close>

subsection \<open>Delay\<close>

lemma invoke_steps:
  "invoke td st c = (forward td (operator (fst (once_Do st))) c, once_Do st)"
  by (cases c)
    (auto simp: invoke_def forward_def tdDelay_Match_def tdDelay_String_def tdDelay_TypeBehind_def
      tdDelay_HandleInvalid_def getOperator_def Let_def nil_dereference_def split: option.splits)

lemma once_Do_built:
  "delayed (fst st) = f \<Longrightarrow> (\<not> once (fst st) \<and> snd st = 0) \<or> built f st \<Longrightarrow> built f (once_Do st)"
  by (cases st) (auto simp: once_Do_def built_def)

lemma invoke_all_built:
  "built f st \<Longrightarrow> invoke_all td st cs = (map (forward td (f 0)) cs, st)"
proof (induction cs)
  case Nil
  then show ?case by simp
next
  case (Cons c cs)
  from Cons.prems have "once_Do st = st" by (cases st) (simp add: once_Do_def built_def)
  with Cons show ?case by (simp add: invoke_steps built_def)
qed

lemma step_inv: "inv td f cs cfg \<Longrightarrow> inv td f cs (step td cfg i)"
proof -
  assume I: "inv td f cs cfg"
  obtain st ths where cfg: "cfg = (st, ths)" by (cases cfg)
  show ?thesis
  proof (cases "i < length ths")
    case False
    with I cfg show ?thesis by (simp add: step_def)
  next
    case True
    show ?thesis
    proof (cases "ths ! i")
      case (Ready c)
      from I cfg have b: "built f (once_Do st)"
        by (auto simp: inv_def intro: once_Do_built)
      from I cfg True Ready have c: "c = cs ! i" by (auto simp: inv_def)
      have d: "delayed (fst (once_Do st)) = f" using b by (simp add: built_def)
      from I cfg True have len: "i < length cs" "length ths = length cs" by (auto simp: inv_def)
      have ex: "\<exists>j<length cs. ths[i := InMethod c] ! j \<noteq> Ready (cs ! j)"
        using len by (intro exI [of _ i]) simp
      have all: "\<forall>j<length cs. ths[i := InMethod c] ! j = Ready (cs ! j) \<or>
            ths[i := InMethod c] ! j = InMethod (cs ! j) \<or>
            ths[i := InMethod c] ! j = Returned (forward td (f 0) (cs ! j))"
        using I cfg len c by (auto simp: inv_def nth_list_update)
      from cfg True Ready b d len ex all show ?thesis
        by (simp add: inv_def step_def)
    next
      case (InMethod c)
      from I cfg True InMethod have b: "built f st" and c: "c = cs ! i"
        and len: "i < length cs" "length ths = length cs"
        by (auto simp: inv_def)
      let ?ths = "ths[i := Returned (forward td (operator (fst st)) c)]"
      have ex: "\<exists>j<length cs. ?ths ! j \<noteq> Ready (cs ! j)"
        using len by (intro exI [of _ i]) simp
      have all: "\<forall>j<length cs. ?ths ! j = Ready (cs ! j) \<or> ?ths ! j = InMethod (cs ! j) \<or>
            ?ths ! j = Returned (forward td (f 0) (cs ! j))"
        using I cfg len c b by (auto simp: inv_def nth_list_update built_def)
      from I cfg True InMethod b len ex all show ?thesis
        by (simp add: inv_def step_def)
    next
      case (Returned r)
      with I cfg True show ?thesis by (simp add: step_def)
    qed
  qed
qed

lemma run_inv: "inv td f cs cfg \<Longrightarrow> inv td f cs (run td cfg sched)"
  unfolding run_def
proof (induction sched arbitrary: cfg)
  case Nil
  then show ?case by simp
next
  case (Cons i sched)
  from Cons.prems have "inv td f cs (step td cfg i)" by (rule step_inv)
  then have "inv td f cs (foldl (step td) (step td cfg i) sched)" by (rule Cons.IH)
  then show ?case by simp
qed

text \<open>
  C2. On a wrapper built by \<open>Delay\<close>, the delayed function runs exactly once and every
  call is forwarded to the operator that this run returned. For calls made one after
  the other: the replies are those of the operator of the first run, and the function
  has run once. For concurrent calls, after any schedule of the steps of the callers:
  the function has run once as soon as a caller has taken a step (and not before), and
  every caller that has returned got the reply of the operator of the first run.
\<close>

theorem delay_builds_once_and_forwards:
  assumes d: "Delay newBase Bad (Some f) = Inr d"
  shows "(cs \<noteq> [] \<longrightarrow>
            fst (invoke_all td (d, 0) cs) = map (forward td (f 0)) cs \<and>
            snd (snd (invoke_all td (d, 0) cs)) = 1) \<and>
         (case run td ((d, 0), map Ready cs) sched of (st, ths) \<Rightarrow>
            snd st = (if ths = map Ready cs then 0 else 1) \<and>
            (\<forall>i<length cs. \<forall>r. ths ! i = Returned r \<longrightarrow> r = forward td (f 0) (cs ! i)))"
proof -
  from d have d0: "\<not> once d" "delayed d = f"
    by (auto simp: Delay_def)
  have seq: "fst (invoke_all td (d, 0) cs) = map (forward td (f 0)) cs \<and>
            snd (snd (invoke_all td (d, 0) cs)) = 1" if "cs \<noteq> []"
  proof -
    from that obtain c cs' where cs: "cs = c # cs'" by (cases cs) auto
    have b: "built f (once_Do (d, 0))" using d0 by (intro once_Do_built) auto
    then have o: "operator (fst (once_Do (d, 0))) = f 0" "snd (once_Do (d, 0)) = 1"
      by (auto simp: built_def)
    show ?thesis
      using invoke_all_built [OF b, of td cs'] o
      by (simp add: cs invoke_steps)
  qed
  have "inv td f cs ((d, 0), map Ready cs)" using d0 by (simp add: inv_def)
  then have I: "inv td f cs (run td ((d, 0), map Ready cs) sched)" by (rule run_inv)
  obtain st ths where r: "run td ((d, 0), map Ready cs) sched = (st, ths)"
    by (cases "run td ((d, 0), map Ready cs) sched")
  from I r have len: "length ths = length cs" by (simp add: inv_def)
  have 1: "snd st = (if ths = map Ready cs then 0 else 1)"
  proof (cases "once (fst st)")
    case False
    with I r show ?thesis by (auto simp: inv_def built_def)
  next
    case True
    with I r obtain i where "i < length cs" "ths ! i \<noteq> Ready (cs ! i)" and "snd st = 1"
      by (auto simp: inv_def built_def)
    then have "ths \<noteq> map Ready cs" by auto
    with \<open>snd st = 1\<close> show ?thesis by simp
  qed
  have 2: "\<forall>i<length cs. \<forall>r. ths ! i = Returned r \<longrightarrow> r = forward td (f 0) (cs ! i)"
    using I r by (auto simp: inv_def)
  from seq 1 2 r show ?thesis by simp
qed

theorem delay_builds_once_and_forwards_witness:
  "Delay (\<lambda>_. ()) (\<lambda>s _. s) (Some Some) = Inr counting_delay \<and>
   fst (invoke_all counting_ops (counting_delay, 0) [CallString, CallHandleInvalid, CallString])
     = [Inr (StringReply ''0''), Inr (HandleInvalidReply True), Inr (StringReply ''0'')] \<and>
   snd (snd (invoke_all counting_ops (counting_delay, 0) [CallString, CallHandleInvalid, CallString])) = 1 \<and>
   snd (fst (run counting_ops ((counting_delay, 0), map Ready [CallString, CallHandleInvalid]) [0, 1, 1, 0])) = 1 \<and>
   snd (run counting_ops ((counting_delay, 0), map Ready [CallString, CallHandleInvalid]) [0, 1, 1, 0])
     = [Returned (Inr (StringReply ''0'')), Returned (Inr (HandleInvalidReply True))]"
proof -
  have d: "Delay (\<lambda>_. ()) (\<lambda>s _. s) (Some Some) = Inr counting_delay"
    by (simp add: Delay_def counting_delay_def)
  have f: "forward counting_ops (Some 0) CallString = Inr (StringReply ''0'')"
    "forward counting_ops (Some 0) CallHandleInvalid = Inr (HandleInvalidReply True)"
    by (simp_all add: forward_def counting_ops_def hex_digit_def)
  have r: "run counting_ops ((counting_delay, 0), map Ready [CallString, CallHandleInvalid]) [0, 1, 1, 0]
     = ((counting_delay\<lparr>operator := Some 0, once := True\<rparr>, 1),
        [Returned (Inr (StringReply ''0'')), Returned (Inr (HandleInvalidReply True))])"
    by (simp add: run_def step_def once_Do_def counting_delay_def f)
  from delay_builds_once_and_forwards [OF d, of "[CallString, CallHandleInvalid, CallString]" counting_ops]
    delay_builds_once_and_forwards [OF d, of "[CallString, CallHandleInvalid]" counting_ops "[0, 1, 1, 0]"]
    d f r
  show ?thesis by simp
qed

subsection \<open>Shallow\<close>

text \<open>
  C3. For an operator built by \<open>Shallow\<close> from a value of a supported kind, the expected
  kind and pointer are those of the value, and \<open>Match\<close> returns nil exactly when the
  observed value has the expected kind and its pointer (for a string, the data pointer
  of its header) is the expected one. So a view \<open>s[0:j]\<close> of the expected string, which
  starts at the same address, matches whatever its length, and a string with the same
  bytes at another address does not match. \<open>CollectError\<close> is taken to return an error,
  never nil.
\<close>

theorem shallow_match_iff_kind_and_pointer:
  assumes s: "Shallow NewBase vptr = Inr s"
    and ce: "\<And>e. CollectError ctx e \<noteq> None"
  shows "expectedKind s = Kind vptr \<and>
         Inr (expectedPointer s) =
           (if Kind vptr = KString then Inr (stringPointer (String vptr)) else Pointer vptr) \<and>
         (tdShallow_Match CollectError s ctx got = Inr None \<longleftrightarrow>
            Kind got = expectedKind s \<and>
            (if expectedKind s = KString then Inr (stringPointer (String got)) else Pointer got)
              = Inr (expectedPointer s)) \<and>
         (vptr = VString t str \<and> substring str 0 j = Inr sub \<longrightarrow>
            tdShallow_Match CollectError s ctx (VString t' sub) = Inr None) \<and>
         (vptr = VString t str \<and> bytes str' = bytes str \<and> Data str' \<noteq> Data str \<longrightarrow>
            tdShallow_Match CollectError s ctx (VString t' str') \<noteq> Inr None)"
proof -
  from s have k: "expectedKind s = Kind vptr"
    by (auto simp: Shallow_def Let_def split: if_splits sum.splits)
  from s have p: "Inr (expectedPointer s) =
           (if Kind vptr = KString then Inr (stringPointer (String vptr)) else Pointer vptr)"
    by (auto simp: Shallow_def Let_def split: if_splits sum.splits)
  have m: "tdShallow_Match CollectError s ctx g = Inr None \<longleftrightarrow>
            Kind g = expectedKind s \<and>
            (if expectedKind s = KString then Inr (stringPointer (String g)) else Pointer g)
              = Inr (expectedPointer s)" for g
    using ce by (auto simp: tdShallow_Match_def split: sum.splits)
  have sub: "tdShallow_Match CollectError s ctx (VString t' sub) = Inr None"
    if "vptr = VString t str" "substring str 0 j = Inr sub"
    using that k p unfolding m by (auto simp: substring_def stringPointer_def split: if_splits)
  have other: "tdShallow_Match CollectError s ctx (VString t' str') \<noteq> Inr None"
    if "vptr = VString t str" "bytes str' = bytes str" "Data str' \<noteq> Data str"
    using that k p unfolding m by (auto simp: stringPointer_def)
  from k p m sub other show ?thesis by blast
qed

theorem shallow_match_iff_kind_and_pointer_witness:
  "Shallow (\<lambda>_. ()) (VString (''string'', 0) foobar) = Inr shallow_foobar \<and>
   substring foobar 0 1 = Inr (GoString 0x1000 ''f'') \<and>
   tdShallow_Match collect_all shallow_foobar zero_context (VString (''string'', 0) (GoString 0x1000 ''f''))
     = Inr None \<and>
   tdShallow_Match collect_all shallow_foobar zero_context
       (VString (''string'', 0) (GoString 0x2000 ''foobar yes!''))
     \<noteq> Inr None \<and>
   tdShallow_Match collect_all shallow_foobar zero_context (VPtr (''*string'', 0) 0x1000) \<noteq> Inr None"
proof -
  have s: "Shallow (\<lambda>_. ()) (VString (''string'', 0) foobar) = Inr shallow_foobar"
    by (simp add: Shallow_def shallow_foobar_def stringPointer_def foobar_def)
  have c: "collect_all zero_context e \<noteq> None" for e
    by (simp add: collect_all_def)
  have sub: "substring foobar 0 1 = Inr (GoString 0x1000 ''f'')"
    by (simp add: substring_def foobar_def)
  note th = shallow_match_iff_kind_and_pointer [where CollectError = collect_all and ctx = zero_context, OF s c]
  from th [where got = "VPtr (''*string'', 0) 0x1000" and t = "(''string'', 0)" and str = foobar
      and j = 1 and sub = "GoString 0x1000 ''f''" and t' = "(''string'', 0)"
      and str' = "GoString 0x2000 ''foobar yes!''"] s sub
  show ?thesis by (simp add: foobar_def shallow_foobar_def)
qed

subsection \<open>The constructors\<close>

text \<open>
  C6. The constructors reject their arguments when the operator is built: \<open>Shallow\<close>
  panics exactly when the kind of the value is not channel, func, map, pointer, slice,
  unsafe pointer or string, and \<open>Match\<close> of an operator it has built never panics;
  \<open>Tag\<close> panics exactly when \<open>CheckTag\<close> rejects the name; \<open>Delay\<close> panics exactly when the
  function is nil.
\<close>

theorem constructors_fail_at_construction:
  "((\<exists>msg. Shallow NewBase vptr = Inl msg) \<longleftrightarrow>
      Kind vptr \<notin> {KChan, KFunc, KMap, KPtr, KSlice, KUnsafePointer, KString}) \<and>
   (Shallow NewBase vptr = Inr s \<longrightarrow> (\<exists>r. tdShallow_Match CollectError s ctx got = Inr r)) \<and>
   ((\<exists>msg. Tag asTestDeep CheckTag Bad tg v = Inl msg) \<longleftrightarrow> CheckTag tg \<noteq> None) \<and>
   ((\<exists>msg. Delay newBase Bad dl = Inl msg) \<longleftrightarrow> dl = None)"
proof -
  have 1: "(\<exists>msg. Shallow NewBase vptr = Inl msg) \<longleftrightarrow>
      Kind vptr \<notin> {KChan, KFunc, KMap, KPtr, KSlice, KUnsafePointer, KString}"
    by (cases vptr) (auto simp: Shallow_def Let_def split: kind_splits)
  have 2: "\<exists>r. tdShallow_Match CollectError s ctx got = Inr r" if s: "Shallow NewBase vptr = Inr s"
  proof -
    from s have k: "expectedKind s \<in> {KChan, KFunc, KMap, KPtr, KSlice, KUnsafePointer, KString}"
      by (auto simp: Shallow_def Let_def split: if_splits sum.splits)
    have "\<exists>p. Pointer got = Inr p"
      if "Kind got \<in> {KChan, KFunc, KMap, KPtr, KSlice, KUnsafePointer}"
      using that by (cases got) (auto split: kind_splits)
    with k show ?thesis
      by (auto simp: tdShallow_Match_def split: sum.splits)
  qed
  have 3: "(\<exists>msg. Tag asTestDeep CheckTag Bad tg v = Inl msg) \<longleftrightarrow> CheckTag tg \<noteq> None"
    by (auto simp: Tag_def Let_def split: option.splits)
  have 4: "(\<exists>msg. Delay newBase Bad dl = Inl msg) \<longleftrightarrow> dl = None"
    by (auto simp: Delay_def split: option.splits)
  from 1 2 3 4 show ?thesis by blast
qed

theorem constructors_fail_at_construction_witness:
  "Kind (VInt (''int'', 0) Int0 42) \<notin> {KChan, KFunc, KMap, KPtr, KSlice, KUnsafePointer, KString} \<and>
   Shallow (\<lambda>_. ()) (VInt (''int'', 0) Int0 42)
     = (Inl ''usage: Shallow(CHANNEL|FUNC|MAP|PTR|SLICE|UNSAFE_PTR|STRING)'' :: string + unit tdShallow) \<and>
   Shallow (\<lambda>_. ()) (VString (''string'', 0) foobar) = Inr shallow_foobar \<and>
   (\<exists>r. tdShallow_Match collect_all shallow_foobar zero_context (VInt (''int'', 0) Int0 42) = Inr r) \<and>
   (\<exists>msg. Tag as_operator check_tag (\<lambda>f args. f @ concat args) [] (VInt (''int'', 0) Int0 42) = Inl msg) \<and>
   (\<exists>msg. (Delay (\<lambda>_. ()) (\<lambda>f args. f @ concat args) None :: string + (unit, nat) tdDelay) = Inl msg)"
proof -
  have k: "Kind (VInt (''int'', 0) Int0 42) \<notin> {KChan, KFunc, KMap, KPtr, KSlice, KUnsafePointer, KString}"
    by simp
  have s: "Shallow (\<lambda>_. ()) (VString (''string'', 0) foobar) = Inr shallow_foobar"
    by (simp add: Shallow_def shallow_foobar_def stringPointer_def foobar_def)
  have u: "Shallow (\<lambda>_. ()) (VInt (''int'', 0) Int0 42)
     = (Inl ''usage: Shallow(CHANNEL|FUNC|MAP|PTR|SLICE|UNSAFE_PTR|STRING)'' :: string + unit tdShallow)"
    by (simp add: Shallow_def)
  have c: "check_tag [] \<noteq> None" by (simp add: check_tag_def)
  from constructors_fail_at_construction [where vptr = "VInt (''int'', 0) Int0 42" and NewBase = "\<lambda>_. ()"
      and s = "undefined :: unit tdShallow" and CheckTag = check_tag and tg = "[]" and dl = None]
    constructors_fail_at_construction [where vptr = "VString (''string'', 0) foobar" and NewBase = "\<lambda>_. ()"
      and s = shallow_foobar and CollectError = collect_all and ctx = zero_context
      and got = "VInt (''int'', 0) Int0 42" and CheckTag = check_tag and tg = "[]" and dl = None]
    k s u c
  show ?thesis by simp
qed

subsection \<open>Tag\<close>

text \<open>
  C9. For an operator built by \<open>Tag\<close> from a name and an expected value, \<open>Match\<close> is
  \<open>deepValueEqual\<close> of the observed value and the expected value; \<open>TypeBehind\<close> is the
  \<open>TypeBehind\<close> of the expected value when it is an operator, otherwise its type, and nil
  for untyped nil; another name gives the same results.
\<close>

theorem tag_delegates_to_expected_value:
  assumes t: "Tag asTestDeep CheckTag Bad tg v = Inr t"
  shows "tdTag_Match deepValueEqual t ctx got = deepValueEqual ctx got v \<and>
         tdTag_TypeBehind asTestDeep td t =
           (case asTestDeep v of
              Some op \<Rightarrow> Inr (op_TypeBehind td op)
            | None \<Rightarrow> if IsValid v then Inr (Type v) else Inr None) \<and>
         (Tag asTestDeep CheckTag Bad tg' v = Inr t' \<longrightarrow>
            tdTag_Match deepValueEqual t' ctx got = tdTag_Match deepValueEqual t ctx got \<and>
            tdTag_TypeBehind asTestDeep td t' = tdTag_TypeBehind asTestDeep td t)"
proof -
  have ev: "expectedValue u = v \<and> isTestDeeper u = (asTestDeep v \<noteq> None)"
    if "Tag asTestDeep CheckTag Bad g v = Inr u" for g u
    using that
    by (auto simp: Tag_def Let_def newSmugglerBase_def tdSmugglerBase.defs tdTag.defs
        split: option.splits if_splits)
  from ev [OF t] have 1: "tdTag_Match deepValueEqual t ctx got = deepValueEqual ctx got v"
    by (simp add: tdTag_Match_def)
  have tb: "tdTag_TypeBehind asTestDeep td u =
           (case asTestDeep v of
              Some op \<Rightarrow> Inr (op_TypeBehind td op)
            | None \<Rightarrow> if IsValid v then Inr (Type v) else Inr None)"
    if "Tag asTestDeep CheckTag Bad g v = Inr u" for g u
    using ev [OF that] by (auto simp: tdTag_TypeBehind_def split: option.splits)
  have 3: "tdTag_Match deepValueEqual t' ctx got = tdTag_Match deepValueEqual t ctx got \<and>
            tdTag_TypeBehind asTestDeep td t' = tdTag_TypeBehind asTestDeep td t"
    if "Tag asTestDeep CheckTag Bad tg' v = Inr t'"
    using ev [OF that] ev [OF t] tb [OF that] tb [OF t] by (simp add: tdTag_Match_def)
  from 1 tb [OF t] 3 show ?thesis by blast
qed

theorem tag_delegates_to_expected_value_witness:
  "Tag as_operator check_tag (\<lambda>f args. f @ concat args) ''gender'' (VString (''string'', 0) foobar)
     = Inr \<lparr>expectedValue = VString (''string'', 0) foobar, isTestDeeper = False, tag = ''gender''\<rparr> \<and>
   tdTag_Match (\<lambda>ctx got expected. got = expected)
       \<lparr>expectedValue = VString (''string'', 0) foobar, isTestDeeper = False, tag = ''gender''\<rparr>
       () (VString (''string'', 0) foobar) \<and>
   tdTag_TypeBehind as_operator int_ops
       \<lparr>expectedValue = VString (''string'', 0) foobar, isTestDeeper = False, tag = ''gender''\<rparr>
     = Inr (Some (RType KString ''string'' 0)) \<and>
   Tag as_operator check_tag (\<lambda>f args. f @ concat args) ''sex'' (VString (''string'', 0) foobar)
     = Inr \<lparr>expectedValue = VString (''string'', 0) foobar, isTestDeeper = False, tag = ''sex''\<rparr> \<and>
   tdTag_Match (\<lambda>ctx got expected. got = expected)
       \<lparr>expectedValue = VString (''string'', 0) foobar, isTestDeeper = False, tag = ''sex''\<rparr>
       () (VString (''string'', 0) foobar) \<and>
   Tag as_operator check_tag (\<lambda>f args. f @ concat args) ''age'' (VPtr (''*td.tdOp'', 0) 7)
     = Inr \<lparr>expectedValue = VPtr (''*td.tdOp'', 0) 7, isTestDeeper = True, tag = ''age''\<rparr> \<and>
   tdTag_TypeBehind as_operator int_ops
       \<lparr>expectedValue = VPtr (''*td.tdOp'', 0) 7, isTestDeeper = True, tag = ''age''\<rparr>
     = Inr (Some (RType KInt ''int'' 0)) \<and>
   Tag as_operator check_tag (\<lambda>f args. f @ concat args) ''nothing'' Invalid
     = Inr \<lparr>expectedValue = Invalid, isTestDeeper = False, tag = ''nothing''\<rparr> \<and>
   tdTag_TypeBehind as_operator int_ops
       \<lparr>expectedValue = Invalid, isTestDeeper = False, tag = ''nothing''\<rparr>
     = Inr None"
proof -
  let ?Bad = "\<lambda>f args. f @ concat args"
  let ?eq = "\<lambda>ctx got expected. got = expected"
  let ?g = "\<lparr>expectedValue = VString (''string'', 0) foobar, isTestDeeper = False, tag = ''gender''\<rparr>"
  let ?s = "\<lparr>expectedValue = VString (''string'', 0) foobar, isTestDeeper = False, tag = ''sex''\<rparr>"
  have 1: "Tag as_operator check_tag ?Bad ''gender'' (VString (''string'', 0) foobar) = Inr ?g"
    by (simp add: Tag_def check_tag_def newSmugglerBase_def as_operator_def
        tdSmugglerBase.defs tdTag.defs)
  have sx: "Tag as_operator check_tag ?Bad ''sex'' (VString (''string'', 0) foobar) = Inr ?s"
    by (simp add: Tag_def check_tag_def newSmugglerBase_def as_operator_def
        tdSmugglerBase.defs tdTag.defs)
  have 2: "Tag as_operator check_tag ?Bad ''age'' (VPtr (''*td.tdOp'', 0) 7)
     = Inr \<lparr>expectedValue = VPtr (''*td.tdOp'', 0) 7, isTestDeeper = True, tag = ''age''\<rparr>"
    by (simp add: Tag_def check_tag_def newSmugglerBase_def as_operator_def
        tdSmugglerBase.defs tdTag.defs)
  have 3: "Tag as_operator check_tag ?Bad ''nothing'' Invalid
     = Inr \<lparr>expectedValue = Invalid, isTestDeeper = False, tag = ''nothing''\<rparr>"
    by (simp add: Tag_def check_tag_def newSmugglerBase_def as_operator_def
        tdSmugglerBase.defs tdTag.defs)
  have a: "as_operator (VString (''string'', 0) foobar) = None"
    "as_operator (VPtr (''*td.tdOp'', 0) 7) = Some 7" "as_operator Invalid = None"
    "op_TypeBehind int_ops x = Some (RType KInt ''int'' 0)"
    "Type (VString (''string'', 0) foobar) = Some (RType KString ''string'' 0)" for x
    by (simp_all add: as_operator_def int_ops_def Type_def)
  note g = tag_delegates_to_expected_value [OF 1, where deepValueEqual = ?eq and ctx = "()"
      and got = "VString (''string'', 0) foobar" and td = int_ops and tg' = "''sex''" and t' = ?s]
  note o = tag_delegates_to_expected_value [OF 2, where td = int_ops, THEN conjunct2, THEN conjunct1]
  note n = tag_delegates_to_expected_value [OF 3, where td = int_ops, THEN conjunct2, THEN conjunct1]
  from g sx have m: "tdTag_Match ?eq ?g () (VString (''string'', 0) foobar)"
    "tdTag_Match ?eq ?s () (VString (''string'', 0) foobar)"
    "tdTag_TypeBehind as_operator int_ops ?g = Inr (Some (RType KString ''string'' 0))"
    by (simp_all add: a)
  from o n have t: "tdTag_TypeBehind as_operator int_ops
       \<lparr>expectedValue = VPtr (''*td.tdOp'', 0) 7, isTestDeeper = True, tag = ''age''\<rparr>
     = Inr (Some (RType KInt ''int'' 0))"
    "tdTag_TypeBehind as_operator int_ops
       \<lparr>expectedValue = Invalid, isTestDeeper = False, tag = ''nothing''\<rparr> = Inr None"
    by (simp_all add: a)
  from 1 sx 2 3 m t show ?thesis by blast
qed

section \<open>Properties of the rendering of errors\<close>

lemma strings_Index_marker:
  "(strings_Index msg ''%%'' < 0 \<longrightarrow> substitute_path path msg = None) \<and>
   (strings_Index msg ''%%'' \<ge> 0 \<longrightarrow>
      substitute_path path msg =
        Some (take (nat (strings_Index msg ''%%'')) msg @ path @
              drop (nat (strings_Index msg ''%%'') + 2) msg))"
proof (induction path msg rule: substitute_path.induct)
  case (1 path)
  show ?case by simp
next
  case (2 path c)
  show ?case by simp
next
  case (3 path c d s)
  show ?case
  proof (cases "c = CHR ''%'' \<and> d = CHR ''%''")
    case True
    then show ?thesis by simp
  next
    case False
    then have nt: "take 2 (c # d # s) \<noteq> ''%%''" by auto
    let ?p = "strings_Index (d # s) ''%%''"
    have idx: "strings_Index (c # d # s) ''%%'' = (if ?p < 0 then -1 else ?p + 1)"
      using nt by (simp add: Let_def del: strings_Index.simps(2)) (simp add: Let_def)
    show ?thesis
    proof (cases "?p < 0")
      case True
      with 3 False idx show ?thesis by simp
    next
      case nonneg: False
      then have n: "nat (?p + 1) = Suc (nat ?p)" by simp
      from nonneg 3 False idx show ?thesis
        by (auto simp add: n simp del: strings_Index.simps)
    qed
  qed
qed

lemma writeEolPrefix_eol: "writeEolPrefix prefix = eol prefix"
  by (simp add: writeEolPrefix_def eol_def)

lemma Append_Allocated:
  "ident e = Allocated \<Longrightarrow> Append env e prefix = rendering_in_order env e prefix"
proof (cases e)
  case (Error i ctx msg got expected summary loc origin nxt)
  assume "ident e = Allocated"
  with Error have i: "i = Allocated" by simp
  have title: "(let pos = strings_Index msg ''%%'' in
            if pos \<ge> 0 then
              take (nat pos) msg @ Path_String env (Path ctx) @ drop (nat pos + 2) msg
            else
              Path_String env (Path ctx) @ '': '' @ msg) = title_text env e"
    using strings_Index_marker [of msg "Path_String env (Path ctx)"] Error
    by (cases "strings_Index msg ''%%'' < 0") (auto simp: title_text_def Let_def)
  show ?thesis
    unfolding Error i
    apply (subst Append.simps)
    apply (subst title [unfolded Error i])
    apply (simp add: rendering_in_order_def values_text_def origin_text_def location_shown_def
        location_line_def next_text_def writeEolPrefix_eol GotString_def ExpectedString_def
        eol_def Let_def
        split: option.splits del: Append.simps)
    done
qed

lemma hex5: "hex 5 = ''5''" "hex 1 = ''1''" "hex 2 = ''2''"
  by (simp_all add: hex_digit_def)

text \<open>
  C5 (amended). \<open>Append\<close> renders every error other than the two sentinels in this
  order: the message (the path in place of the first marker \<open>%%\<close>, otherwise the path,
  a colon and the message), the values got and expected or the summary, the origin if
  there is one, the line of the location if it is to be shown, the next error if there
  is one. Of the sentinels, \<open>BooleanError\<close> renders as nothing and \<open>ErrTooManyErrors\<close> as
  its message alone.
\<close>

theorem Append_renders_in_order:
  "(ident e = Allocated \<longrightarrow> Append env e prefix = rendering_in_order env e prefix) \<and>
   (ident e = IsBooleanError \<longrightarrow> Append env e prefix = []) \<and>
   (ident e = IsErrTooManyErrors \<longrightarrow>
      Append env e prefix = prefix @ TitleOn env @ Message e @ TitleOff env)"
proof -
  have "Append env e prefix = []" if "ident e = IsBooleanError"
    using that by (cases e) simp
  moreover have "Append env e prefix = prefix @ TitleOn env @ Message e @ TitleOff env"
    if "ident e = IsErrTooManyErrors"
    using that by (cases e) simp
  ultimately show ?thesis using Append_Allocated by blast
qed

theorem Append_renders_in_order_witness:
  "ident (mismatch (Some ErrTooManyErrors)) = Allocated \<and>
   Append plain_rendering (mismatch (Some ErrTooManyErrors)) []
     = rendering_in_order plain_rendering (mismatch (Some ErrTooManyErrors)) [] \<and>
   rendering_in_order plain_rendering (mismatch (Some ErrTooManyErrors)) []
     = ''DATA: bad'' @ [CHR 0x0A, CHR 0x09] @ ''     got: 1'' @ [CHR 0x0A, CHR 0x09] @ ''expected: 2'' @
       [CHR 0x0A] @ ''[under TestDeep operator Op() at line 5]'' @
       [CHR 0x0A] @ ''Too many errors (use TESTDEEP_MAX_ERRORS=-1 to see all)'' \<and>
   Append plain_rendering (ctxerr_BooleanError :: (nat, nat, nat, nat) error) ''x'' = []"
proof -
  have i: "ident (mismatch (Some ErrTooManyErrors)) = Allocated"
    by (simp add: mismatch_def)
  have t: "title_text plain_rendering (mismatch (Some ErrTooManyErrors)) = ''DATA: bad''"
    by (simp add: title_text_def mismatch_def plain_rendering_def)
  have n: "Append plain_rendering (ErrTooManyErrors :: (nat, nat, nat, nat) error) []
     = ''Too many errors (use TESTDEEP_MAX_ERRORS=-1 to see all)''"
    by (simp add: ErrTooManyErrors_def plain_rendering_def)
  have r: "rendering_in_order plain_rendering (mismatch (Some ErrTooManyErrors)) []
     = ''DATA: bad'' @ [CHR 0x0A, CHR 0x09] @ ''     got: 1'' @ [CHR 0x0A, CHR 0x09] @ ''expected: 2'' @
       [CHR 0x0A] @ ''[under TestDeep operator Op() at line 5]'' @
       [CHR 0x0A] @ ''Too many errors (use TESTDEEP_MAX_ERRORS=-1 to see all)''"
    unfolding rendering_in_order_def t
    by (simp add: values_text_def origin_text_def location_shown_def location_line_def
        next_text_def n eol_def hex5)
      (simp add: mismatch_def plain_rendering_def line5_def ErrTooManyErrors_def zero_location_def
        eol_def hex_digit_def)
  have b: "ident (ctxerr_BooleanError :: (nat, nat, nat, nat) error) = IsBooleanError"
    by (simp add: ctxerr_BooleanError_def)
  from Append_renders_in_order [of "mismatch (Some ErrTooManyErrors)" plain_rendering "[]"]
    Append_renders_in_order [of "ctxerr_BooleanError :: (nat, nat, nat, nat) error" plain_rendering "''x''"]
    i r b
  show ?thesis by simp
qed

text \<open>
  C5 as claimed, for every error: the sentinel \<open>ErrTooManyErrors\<close> is rendered as its
  message alone, without path and values.
\<close>

theorem Append_sentinel_counterexample:
  "Append plain_rendering (ErrTooManyErrors :: (nat, nat, nat, nat) error) []
     = ''Too many errors (use TESTDEEP_MAX_ERRORS=-1 to see all)'' \<and>
   Append plain_rendering (ErrTooManyErrors :: (nat, nat, nat, nat) error) []
     \<noteq> rendering_in_order plain_rendering (ErrTooManyErrors :: (nat, nat, nat, nat) error) []"
proof -
  have a: "Append plain_rendering (ErrTooManyErrors :: (nat, nat, nat, nat) error) []
     = ''Too many errors (use TESTDEEP_MAX_ERRORS=-1 to see all)''"
    by (simp add: ErrTooManyErrors_def plain_rendering_def)
  have t: "title_text plain_rendering (ErrTooManyErrors :: (nat, nat, nat, nat) error)
      = ''DATA: Too many errors (use TESTDEEP_MAX_ERRORS=-1 to see all)''"
    by (simp add: title_text_def ErrTooManyErrors_def plain_rendering_def)
  have "hd (rendering_in_order plain_rendering (ErrTooManyErrors :: (nat, nat, nat, nat) error) [])
      = CHR ''D''"
    unfolding rendering_in_order_def t by (simp add: plain_rendering_def)
  moreover have "hd (Append plain_rendering (ErrTooManyErrors :: (nat, nat, nat, nat) error) [])
      = CHR ''T''"
    unfolding a by simp
  ultimately have "Append plain_rendering (ErrTooManyErrors :: (nat, nat, nat, nat) error) []
     \<noteq> rendering_in_order plain_rendering (ErrTooManyErrors :: (nat, nat, nat, nat) error) []"
    by auto
  with a show ?thesis by simp
qed

text \<open>
  C10. For an error that is not a sentinel, the line of the location is written, after
  the origin and before the next error, exactly when the location is initialized, is not
  behind a \<open>Cmp\<close> function, and there is no next error or the location of the next error
  is another one; otherwise nothing is written in its place. A sentinel never has the
  line.
\<close>

theorem location_line_printed_only_when:
  "(ident e = Allocated \<longrightarrow>
      Append env e prefix =
        prefix @ TitleOn env @ title_text env e @ TitleOff env @
        values_text env e prefix @ origin_text env e prefix @
        (if IsInitialized env (Location e) \<and> \<not> BehindCmp (Location e) \<and>
            (Next e = None \<or> Location (the (Next e)) \<noteq> Location e)
         then location_line env e prefix else []) @
        next_text env e prefix) \<and>
   (ident e \<noteq> Allocated \<longrightarrow>
      Append env e prefix =
        (if ident e = IsBooleanError then [] else prefix @ TitleOn env @ Message e @ TitleOff env))"
proof -
  have "Append env e prefix =
        (if ident e = IsBooleanError then [] else prefix @ TitleOn env @ Message e @ TitleOff env)"
    if "ident e \<noteq> Allocated"
    using that by (cases e; cases "ident e") simp_all
  then show ?thesis
    using Append_Allocated [of e env prefix]
    by (simp add: rendering_in_order_def location_shown_def)
qed

theorem location_line_printed_only_when_witness:
  "Append plain_rendering (mismatch None) []
     = ''DATA: bad'' @ [CHR 0x0A, CHR 0x09] @ ''     got: 1'' @ [CHR 0x0A, CHR 0x09] @ ''expected: 2'' @
       [CHR 0x0A] @ ''[under TestDeep operator Op() at line 5]'' \<and>
   Append plain_rendering (mismatch (Some (mismatch None))) []
     = ''DATA: bad'' @ [CHR 0x0A, CHR 0x09] @ ''     got: 1'' @ [CHR 0x0A, CHR 0x09] @ ''expected: 2'' @
       [CHR 0x0A] @ Append plain_rendering (mismatch None) [] \<and>
   Append plain_rendering behind_cmp []
     = ''DATA: bad'' @ [CHR 0x0A, CHR 0x09] @ ''     got: 1'' @ [CHR 0x0A, CHR 0x09] @ ''expected: 2''"
proof -
  have t: "title_text plain_rendering (mismatch n) = ''DATA: bad''"
    "title_text plain_rendering behind_cmp = ''DATA: bad''" for n
    by (simp_all add: title_text_def mismatch_def behind_cmp_def plain_rendering_def)
  have v: "values_text plain_rendering (mismatch n) []
      = [CHR 0x0A, CHR 0x09] @ ''     got: 1'' @ [CHR 0x0A, CHR 0x09] @ ''expected: 2''"
    "values_text plain_rendering behind_cmp []
      = [CHR 0x0A, CHR 0x09] @ ''     got: 1'' @ [CHR 0x0A, CHR 0x09] @ ''expected: 2''" for n
    by (simp_all add: values_text_def mismatch_def behind_cmp_def plain_rendering_def eol_def
        hex_digit_def)
  have l: "location_line plain_rendering (mismatch n) []
      = [CHR 0x0A] @ ''[under TestDeep operator Op() at line 5]''" for n
    by (simp add: location_line_def mismatch_def plain_rendering_def line5_def eol_def hex_digit_def)
  have c: "IsInitialized plain_rendering line5" "\<not> BehindCmp line5"
    "Location (mismatch n) = line5" "Next (mismatch n) = n" "ident (mismatch n) = Allocated"
    "origin_text plain_rendering (mismatch n) p = []"
    "TitleOn plain_rendering = []" "TitleOff plain_rendering = []" for n p
    by (simp_all add: plain_rendering_def line5_def mismatch_def origin_text_def)
  have b: "BehindCmp (Location behind_cmp)" "ident behind_cmp = Allocated"
    "origin_text plain_rendering behind_cmp p = []" "next_text plain_rendering behind_cmp p = []" for p
    by (simp_all add: behind_cmp_def origin_text_def next_text_def)
  have 1: "Append plain_rendering (mismatch None) []
     = ''DATA: bad'' @ [CHR 0x0A, CHR 0x09] @ ''     got: 1'' @ [CHR 0x0A, CHR 0x09] @ ''expected: 2'' @
       [CHR 0x0A] @ ''[under TestDeep operator Op() at line 5]''"
    using location_line_printed_only_when [of "mismatch None" plain_rendering "[]"]
    by (simp add: t v l c next_text_def del: Append.simps)
  have 2: "Append plain_rendering (mismatch (Some (mismatch None))) []
     = ''DATA: bad'' @ [CHR 0x0A, CHR 0x09] @ ''     got: 1'' @ [CHR 0x0A, CHR 0x09] @ ''expected: 2'' @
       [CHR 0x0A] @ Append plain_rendering (mismatch None) []"
    using location_line_printed_only_when [of "mismatch (Some (mismatch None))" plain_rendering "[]"]
    by (simp add: t v l c next_text_def eol_def del: Append.simps)
  have 3: "Append plain_rendering behind_cmp []
     = ''DATA: bad'' @ [CHR 0x0A, CHR 0x09] @ ''     got: 1'' @ [CHR 0x0A, CHR 0x09] @ ''expected: 2''"
    using location_line_printed_only_when [of behind_cmp plain_rendering "[]"]
    by (simp add: t v b c del: Append.simps)
  from 1 2 3 show ?thesis by blast
qed

end
